theory Spec2Isabelle
  imports Complex_Main
begin

section \<open>Numbers, errors and arrays\<close>

text \<open>
  The program is JavaScript (\<^verbatim>\<open>src/model-actions.js\<close>). Its numbers are doubles. They
  are modelled as \<^typ>\<open>real\<close>, and arithmetic on them is exact, with two exceptions where
  the program's rounding decides what it computes: a store into a \<^verbatim>\<open>Float32Array\<close> rounds
  to single precision (\<open>fround\<close>), and the assignment to \<^verbatim>\<open>epsilon\<close> is evaluated operation
  by operation in double precision (\<open>dround\<close>). Overflow to an infinity is not modelled.
  Where the program can hold the value NaN (an entry of a feature vector that was
  written from a missing field, and \<^verbatim>\<open>epsilon\<close> after \<open>0 / 0\<close>) the number is a \<open>num\<close>.
  Array indices, the episode counter and actions are \<^typ>\<open>nat\<close>. An exception is a value
  of \<open>error\<close>; a function of the source that can throw returns \<open>error + 'a\<close> with \<open>Inl\<close>
  for the exception.
\<close>

datatype error =
    ShapeError
  | TypeError
  | EnvironmentError
  | InsufficientDataError
  | OptimizationError

datatype num = Num real | NaN

text \<open>The numbers 0 and 1 as values of \<open>num\<close>.\<close>

instantiation num :: "{zero, one}"
begin

definition zero_num :: num where
  "zero_num = Num 0"

definition one_num :: num where
  "one_num = Num 1"

instance ..

end

text \<open>
  \<^verbatim>\<open>x < y\<close> for a double \<open>x\<close> and a number \<open>y\<close> that may be NaN: a comparison with NaN is
  false.
\<close>

definition lessNum :: "real \<Rightarrow> num \<Rightarrow> bool" where
  "lessNum x y = (case y of Num r \<Rightarrow> x < r | NaN \<Rightarrow> False)"

text \<open>
  Rounding to the nearest binary floating-point number with \<open>p\<close> significant bits and
  least exponent \<open>emin\<close>, ties to the even significand: \<open>roundEven\<close> rounds to the
  nearest integer, \<open>roundBinary\<close> scales by the unit in the last place of the number's
  binade (that of \<open>2^emin\<close> below it, where the format is subnormal). \<open>fround\<close> is
  single precision (24 bits, what a store into a \<^verbatim>\<open>Float32Array\<close> does), \<open>dround\<close> double
  precision (53 bits). \<^verbatim>\<open>Math.exp\<close> is taken to be the correctly rounded exponential.
\<close>

definition roundEven :: "real \<Rightarrow> int" where
  "roundEven x =
     (let f = \<lfloor>x\<rfloor>; d = x - of_int f
      in if d < 1 / 2 then f else if 1 / 2 < d then f + 1 else if even f then f else f + 1)"

definition roundBinary :: "nat \<Rightarrow> int \<Rightarrow> real \<Rightarrow> real" where
  "roundBinary p emin x =
     (if x = 0 then 0
      else
        (let e = max emin \<lfloor>log 2 \<bar>x\<bar>\<rfloor>;
             ulp = 2 powr of_int (e - int p + 1)
         in of_int (roundEven (x / ulp)) * ulp))"

definition fround :: "real \<Rightarrow> real" where
  "fround = roundBinary 24 (- 126)"

definition dround :: "real \<Rightarrow> real" where
  "dround = roundBinary 53 (- 1022)"

definition mathExp :: "real \<Rightarrow> real" where
  "mathExp x = dround (exp x)"

text \<open>
  \<^verbatim>\<open>~~x\<close> is JavaScript's double bitwise negation: the number is truncated toward zero
  and then reduced to a signed 32-bit integer (ToInt32), which wraps modulo \<open>2^32\<close>.
\<close>

definition truncReal :: "real \<Rightarrow> int" where
  "truncReal r = (if 0 \<le> r then \<lfloor>r\<rfloor> else \<lceil>r\<rceil>)"

definition toInt32 :: "int \<Rightarrow> int" where
  "toInt32 i = (i + 2147483648) mod 4294967296 - 2147483648"

definition bitNotNot :: "real \<Rightarrow> int" where
  "bitNotNot r = toInt32 (truncReal r)"

text \<open>
  \<^verbatim>\<open>vector[i] = v\<close> on a plain JavaScript array: inside the array the element is
  replaced, beyond its end the array grows up to index \<open>i\<close>. The holes that JavaScript
  leaves when it grows an array read as \<^verbatim>\<open>undefined\<close>, which a tensor holds as NaN.
\<close>

definition arraySet :: "num list \<Rightarrow> nat \<Rightarrow> num \<Rightarrow> num list" where
  "arraySet xs i v =
     (if i < length xs then xs[i := v] else xs @ replicate (i - length xs) NaN @ [v])"

text \<open>
  \<^verbatim>\<open>tf.tensor2d(values, [r, c])\<close> throws when the number of values is not \<open>r * c\<close>.
  A tensor of shape \<open>[1, c]\<close> is kept as the list of its values.
\<close>

definition tensor2d :: "num list \<Rightarrow> nat \<Rightarrow> nat \<Rightarrow> error + num list" where
  "tensor2d values r c = (if length values = r * c then Inr values else Inl ShapeError)"

section \<open>State encoder\<close>

record obstacle =
  xPos :: real
  yPos :: real
  width :: real
  osize :: real

record State =
  obstacles :: "obstacle list"
  jumping :: bool
  ypos :: real
  time :: real
  isDone :: bool

text \<open>
  The constant \<^verbatim>\<open>distance\<close> of \<^verbatim>\<open>obstacleToVector\<close>:
  \<^verbatim>\<open>Math.min(39, Math.max(0, ~~((obstacle.xPos - 19) / 16)))\<close>.
\<close>

definition distance :: "obstacle \<Rightarrow> int" where
  "distance ob = min 39 (max 0 (bitNotNot ((xPos ob - 19) / 16)))"

text \<open>
  \<^verbatim>\<open>obstacleToVector\<close> for an obstacle object whose four fields are numbers.
\<close>

definition obstacleToVector :: "obstacle \<Rightarrow> num list \<Rightarrow> nat \<Rightarrow> num list" where
  "obstacleToVector ob vector offset =
     (let v1 = arraySet vector (offset + nat (distance ob)) 1;
          v2 = arraySet v1 (offset + 40) (Num (yPos ob));
          v3 = arraySet v2 (offset + 41) (Num (width ob))
      in arraySet v3 (offset + 42) (Num (osize ob)))"

text \<open>
  The body of \<^verbatim>\<open>stateToTensor\<close> for a state of the record \<open>State\<close>, whose obstacles are
  such objects: \<open>stateVector\<close> is the array \<^verbatim>\<open>vector\<close> when the function reaches its last
  line, which hands it to \<^verbatim>\<open>tf.tensor2d(vector, [1, 88])\<close>.
\<close>

definition stateVector :: "State \<Rightarrow> num list" where
  "stateVector state =
     (let vector0 = replicate 88 0;
          obs = obstacles state;
          vector1 =
            (if 0 < length obs then
               (let w = obstacleToVector (obs ! 0) vector0 0
                in if 1 < length obs then obstacleToVector (obs ! 1) w 43 else w)
             else vector0);
          vector2 = (if jumping state then arraySet vector1 86 1 else vector1)
      in arraySet vector2 87 (Num (ypos state)))"

text \<open>
  \<^verbatim>\<open>stateToTensor\<close> on what JavaScript lets the function receive. The field
  \<^verbatim>\<open>state.obstacles\<close> is an array or is missing or null (\<open>None\<close>). An entry of the array
  is null or undefined (\<open>Nullish\<close>), an object without the four fields
  (\<open>EmptyObject\<close>), or an obstacle object with numeric fields. Reading
  \<^verbatim>\<open>obstacles.length\<close> of a missing array and \<^verbatim>\<open>obstacle.xPos\<close> of a nullish entry throw a
  \<^verbatim>\<open>TypeError\<close>. For an object without fields \<^verbatim>\<open>obstacle.xPos\<close> is \<^verbatim>\<open>undefined\<close>, the
  quotient is NaN and \<^verbatim>\<open>~~NaN\<close> is 0, so the bucket is 0, and the three fields are
  written as \<^verbatim>\<open>undefined\<close>, which the tensor holds as NaN. \<open>rawState\<close> hands a state of
  the record to the function as it is.
\<close>

datatype entry = Nullish | EmptyObject | Entry obstacle

record RawState =
  rawObstacles :: "entry list option"
  rawJumping :: bool
  rawYpos :: num

definition entryToVector :: "entry \<Rightarrow> num list \<Rightarrow> nat \<Rightarrow> error + num list" where
  "entryToVector en vector offset =
     (case en of
        Nullish \<Rightarrow> Inl TypeError
      | EmptyObject \<Rightarrow>
          (let v1 = arraySet vector (offset + 0) 1;
               v2 = arraySet v1 (offset + 40) NaN;
               v3 = arraySet v2 (offset + 41) NaN
           in Inr (arraySet v3 (offset + 42) NaN))
      | Entry ob \<Rightarrow> Inr (obstacleToVector ob vector offset))"

definition stateToTensor :: "RawState \<Rightarrow> error + num list" where
  "stateToTensor raw =
     (case rawObstacles raw of
        None \<Rightarrow> Inl TypeError
      | Some obs \<Rightarrow>
          (let vector0 = replicate 88 0;
               filled =
                 (if 0 < length obs then
                    (case entryToVector (obs ! 0) vector0 0 of
                       Inl e \<Rightarrow> Inl e
                     | Inr w \<Rightarrow>
                         if 1 < length obs then entryToVector (obs ! 1) w 43 else Inr w)
                  else Inr vector0)
           in case filled of
                Inl e \<Rightarrow> Inl e
              | Inr vector1 \<Rightarrow>
                  (let vector2 = (if rawJumping raw then arraySet vector1 86 1 else vector1);
                       vector3 = arraySet vector2 87 (rawYpos raw)
                   in tensor2d vector3 1 88)))"

definition rawState :: "State \<Rightarrow> RawState" where
  "rawState state =
     \<lparr>rawObstacles = Some (map Entry (obstacles state)), rawJumping = jumping state,
      rawYpos = Num (ypos state)\<rparr>"

section \<open>Models and the learner\<close>

text \<open>
  A model of the tensor runtime: \<open>units\<close> is the width of its output layer, \<open>weights\<close>
  what \<^verbatim>\<open>getWeights\<close> returns and \<^verbatim>\<open>setWeights\<close> replaces, and \<open>net\<close> the network
  function, which gives for weights and an input row the value of each output unit.
  \<open>predict\<close> is one row of \<^verbatim>\<open>model.apply\<close>, \<open>applyModel\<close> the whole batch: a tensor
  of shape \<open>[length batch, units]\<close>, kept as the list of its rows.
\<close>

record 'w model =
  units :: nat
  weights :: 'w
  net :: "'w \<Rightarrow> num list \<Rightarrow> nat \<Rightarrow> real"

definition predict :: "'w model \<Rightarrow> num list \<Rightarrow> real list" where
  "predict m x = map (net m (weights m) x) [0..<units m]"

definition applyModel :: "'w model \<Rightarrow> num list list \<Rightarrow> real list list" where
  "applyModel m batch = map (predict m) batch"

text \<open>
  \<^verbatim>\<open>tensor.dataSync()\<close> gives the values of a tensor as one flat typed array, row after
  row.
\<close>

definition dataSync :: "real list list \<Rightarrow> real list" where
  "dataSync rows = concat rows"

text \<open>
  \<^verbatim>\<open>tensor.argMax(-1)\<close> along one row: the runtime scans the row and moves to a later
  index only for a strictly greater value, so the first maximum wins.
\<close>

primrec argMaxFrom :: "real list \<Rightarrow> nat \<Rightarrow> real \<Rightarrow> nat \<Rightarrow> nat" where
  "argMaxFrom [] best bestValue i = best"
| "argMaxFrom (x # xs) best bestValue i =
     (if bestValue < x then argMaxFrom xs i x (Suc i)
      else argMaxFrom xs best bestValue (Suc i))"

definition argMax :: "real list \<Rightarrow> nat" where
  "argMax row = (case row of [] \<Rightarrow> 0 | x # xs \<Rightarrow> argMaxFrom xs 0 x 1)"

text \<open>
  \<^verbatim>\<open>typedArray.slice(lo, hi)\<close> for \<open>lo \<le> hi\<close>; both ends are cut at the array's length.
\<close>

definition slice :: "real list \<Rightarrow> nat \<Rightarrow> nat \<Rightarrow> real list" where
  "slice xs lo hi = take (hi - lo) (drop lo xs)"

text \<open>
  A transition of the replay memory: the object literal that \<^verbatim>\<open>trainDinoModel\<close> hands
  to \<^verbatim>\<open>memory.add\<close>, with the fields \<^verbatim>\<open>state\<close>, \<^verbatim>\<open>action\<close>, \<^verbatim>\<open>reward\<close>, \<^verbatim>\<open>nextState\<close>
  and \<^verbatim>\<open>done\<close>.
\<close>

record transition =
  tState :: "num list"
  tAction :: nat
  tReward :: real
  tNextState :: "num list"
  tDone :: bool

text \<open>
  \<^verbatim>\<open>optimizeModel\<close> up to the call of \<^verbatim>\<open>fit\<close>: \<open>targets\<close> is the array \<^verbatim>\<open>targets\<close> that the
  loop over the batch builds. \<^verbatim>\<open>targetArray\<close> is a slice of the \<^verbatim>\<open>Float32Array\<close> that
  \<^verbatim>\<open>dataSync\<close> returns, so the store of \<^verbatim>\<open>targetQValue\<close> into it rounds the double to
  single precision. A write into the typed array at an index beyond its end is
  ignored, as \<open>xs[i := v]\<close> is. A read of \<^verbatim>\<open>targetModelNextQValues\<close> beyond its end yields
  \<^verbatim>\<open>undefined\<close> in JavaScript; \<open>!\<close> leaves it unspecified.
\<close>

definition targets :: "'w model \<Rightarrow> 'w model \<Rightarrow> transition list \<Rightarrow> real \<Rightarrow> real list list" where
  "targets onlineModel targetModel experiences gamma =
     (let statesVectors = map tState experiences;
          nextStatesVectors = map tNextState experiences;
          onlineModelQValues = dataSync (applyModel onlineModel statesVectors);
          targetModelNextQValues = dataSync (applyModel targetModel nextStatesVectors);
          noOfActions = units targetModel;
          onlineModelNextActions = map argMax (applyModel onlineModel nextStatesVectors)
      in map (\<lambda>i.
            let experience = experiences ! i;
                targetQValue =
                  (if tDone experience then tReward experience
                   else
                     (let nextOnlineAction = onlineModelNextActions ! i;
                          nextTargetQValue =
                            targetModelNextQValues ! (noOfActions * i + nextOnlineAction)
                      in tReward experience + gamma * nextTargetQValue));
                targetArray =
                  slice onlineModelQValues (i * noOfActions) ((i + 1) * noOfActions)
            in targetArray[tAction experience := fround targetQValue])
          [0..<length experiences])"

text \<open>
  \<^verbatim>\<open>onlineModel.fit\<close> is the runtime's: it is a parameter \<open>fit\<close> that, for the model, the
  batch of states, the batch of targets and the batch size, either throws or returns
  the loss and the weights after one epoch. An exception of a tensor operation before
  the call of \<^verbatim>\<open>fit\<close> is part of that failing result.
\<close>

type_synonym 'w fit =
  "'w model \<Rightarrow> num list list \<Rightarrow> real list list \<Rightarrow> nat \<Rightarrow> error + (real \<times> 'w)"

definition optimizeModel ::
  "'w fit \<Rightarrow> 'w model \<Rightarrow> 'w model \<Rightarrow> transition list \<Rightarrow> real \<Rightarrow> nat \<Rightarrow> error + (real \<times> 'w)"
where
  "optimizeModel fit onlineModel targetModel experiences gamma batchSize =
     fit onlineModel (map tState experiences)
       (targets onlineModel targetModel experiences gamma) batchSize"


text \<open>Concrete models and transitions, the inputs of the examples below.\<close>

abbreviation wOnline :: "real model" where
  "wOnline \<equiv> \<lparr>units = 2, weights = 1, net = (\<lambda>w x a. if a = 0 then w else 3)\<rparr>"

abbreviation wTarget :: "real model" where
  "wTarget \<equiv> \<lparr>units = 2, weights = 5, net = (\<lambda>w x a. if a = 0 then w else 7)\<rparr>"

abbreviation wExp :: transition where
  "wExp \<equiv> \<lparr>tState = [0], tAction = 0, tReward = 1 / 10, tNextState = [1], tDone = False\<rparr>"

abbreviation wExpDone :: transition where
  "wExpDone \<equiv> \<lparr>tState = [0], tAction = 1, tReward = - 1, tNextState = [1], tDone = True\<rparr>"

section \<open>Replay memory\<close>

text \<open>
  Modelled from the spec: the module \<^verbatim>\<open>../src/Memory\<close> that \<^verbatim>\<open>model-actions.js\<close> requires
  is not among the sources. The spec gives a bounded buffer of capacity \<open>C\<close> with FIFO
  insertion (when the buffer is at capacity, the oldest transition is evicted before
  the new one is inserted) and \<open>sample(n)\<close>, which fails with \<open>InsufficientDataError\<close>
  when fewer than \<open>n\<close> transitions are stored and otherwise draws \<open>n\<close> entries
  independently and uniformly, with replacement. The draws come from \<open>rnd\<close>, the
  sequence of results of \<^verbatim>\<open>Math.random()\<close> (each in \<open>[0, 1)\<close>), read from position \<open>k\<close>.
\<close>

record Memory =
  capacity :: nat
  buffer :: "transition list"

definition memoryAdd :: "Memory \<Rightarrow> transition \<Rightarrow> Memory" where
  "memoryAdd m t =
     (let kept = (if capacity m \<le> length (buffer m) then tl (buffer m) else buffer m)
      in m\<lparr>buffer := kept @ [t]\<rparr>)"

definition memorySample :: "(nat \<Rightarrow> real) \<Rightarrow> nat \<Rightarrow> Memory \<Rightarrow> nat \<Rightarrow> error + transition list" where
  "memorySample rnd k m n =
     (if length (buffer m) < n then Inl InsufficientDataError
      else Inr (map (\<lambda>j. buffer m ! nat \<lfloor>rnd (k + j) * real (length (buffer m))\<rfloor>) [0..<n]))"

section \<open>Training session\<close>

text \<open>
  The parameters of \<^verbatim>\<open>trainDinoModel\<close> that stay fixed during a session.
\<close>

record config =
  episodes :: nat
  batchSize :: nat
  gamma :: real
  epsilonStart :: real
  epsilonEnd :: real
  epsilonDecay :: real
  targetUpdateFrequency :: nat

text \<open>
  What the program does to the outside, in program order: calls of the environment,
  console output, lines appended to the log file and saved models; and, for the three
  statements of an accepted step, the assignment each of them makes.
\<close>

datatype effect =
    Restart
  | PerformAction nat
  | ConsoleLog error
  | ConsoleWarn real
  | AddReward real
  | MemoryAdd transition
  | SetEpsilon num
  | SaveModel string
  | LogSeparator
  | LogEpisode nat num real

text \<open>
  The mutable state of a session: the local variables \<^verbatim>\<open>epsilon\<close> (which the
  assignment can set to NaN) and \<^verbatim>\<open>episodeReward\<close>, the replay memory, the two models,
  the number of calls of \<^verbatim>\<open>Math.random()\<close> made so far, the saved models by path, and
  the effects so far.
\<close>

record 'w session =
  epsilon :: num
  episodeReward :: real
  memory :: Memory
  online :: "'w model"
  target :: "'w model"
  randomCalls :: nat
  files :: "string \<Rightarrow> 'w option"
  effects :: "effect list"

definition emit :: "effect \<Rightarrow> 'w session \<Rightarrow> 'w session" where
  "emit ev s = s\<lparr>effects := effects s @ [ev]\<rparr>"

text \<open>
  \<^verbatim>\<open>selectAction\<close>: the action and the number of calls of \<^verbatim>\<open>Math.random()\<close> after it.
  With \<^verbatim>\<open>epsilon\<close> NaN the comparison is false and the model chooses.
\<close>

definition selectAction :: "(nat \<Rightarrow> real) \<Rightarrow> 'w model \<Rightarrow> num list \<Rightarrow> num \<Rightarrow> nat \<Rightarrow> nat \<times> nat" where
  "selectAction rnd m stateTensor eps k =
     (if lessNum (rnd k) eps then (nat \<lfloor>rnd (k + 1) * 2\<rfloor>, k + 2)
      else (argMax (predict m stateTensor), k + 1))"

text \<open>
  \<^verbatim>\<open>updateTargetModel\<close>. \<^verbatim>\<open>model.save\<close> is taken to succeed; it stores the weights of
  the model under the path.
\<close>

definition saveModel :: "'w model \<Rightarrow> string \<Rightarrow> 'w session \<Rightarrow> 'w session" where
  "saveModel m path s = emit (SaveModel path) (s\<lparr>files := (files s)(path \<mapsto> weights m)\<rparr>)"

definition updateTargetModel :: "'w session \<Rightarrow> 'w session" where
  "updateTargetModel s =
     (let onlineWeights = weights (online s);
          s1 = s\<lparr>target := (target s)\<lparr>weights := onlineWeights\<rparr>\<rparr>;
          s2 = saveModel (online s1) ''file://./dino-chrome-model/main'' s1
      in saveModel (target s2) ''file://./dino-chrome-model/target'' s2)"

text \<open>
  The optimization step of the loop body (the \<^verbatim>\<open>if\<close> around \<^verbatim>\<open>try { ... } catch (e)\<close>):
  \<open>sampleAndOptimize\<close> is the body of the \<^verbatim>\<open>try\<close>, whose exception the \<^verbatim>\<open>catch\<close> writes to
  the console. A fit that throws is taken to leave the weights as they were.
\<close>

definition sampleAndOptimize ::
  "'w fit \<Rightarrow> (nat \<Rightarrow> real) \<Rightarrow> config \<Rightarrow> 'w session \<Rightarrow> error + (real \<times> 'w)"
where
  "sampleAndOptimize fit rnd cfg s =
     (case memorySample rnd (randomCalls s) (memory s) (batchSize cfg) of
        Inl e \<Rightarrow> Inl e
      | Inr experiences \<Rightarrow>
          optimizeModel fit (online s) (target s) experiences (gamma cfg) (batchSize cfg))"

definition optimizationStep ::
  "'w fit \<Rightarrow> (nat \<Rightarrow> real) \<Rightarrow> config \<Rightarrow> 'w session \<Rightarrow> 'w session"
where
  "optimizationStep fit rnd cfg s =
     (if batchSize cfg \<le> length (buffer (memory s)) then
        (let drawn = (case memorySample rnd (randomCalls s) (memory s) (batchSize cfg) of
                        Inl e \<Rightarrow> 0 | Inr experiences \<Rightarrow> batchSize cfg);
             s1 = s\<lparr>randomCalls := randomCalls s + drawn\<rparr>
         in case sampleAndOptimize fit rnd cfg s of
              Inl e \<Rightarrow> emit (ConsoleLog e) s1
            | Inr (loss, w) \<Rightarrow> s1\<lparr>online := (online s1)\<lparr>weights := w\<rparr>\<rparr>)
      else s)"

text \<open>
  The environment: \<open>script\<close> is the list of states that the coming calls of
  \<^verbatim>\<open>proxy.state()\<close> return, in order; they are states of the record \<open>State\<close>. A call on an exhausted script is the environment
  failing. \<open>poll\<close> is the fetch of the next state with its waiting loop, which fetches
  again (after \<^verbatim>\<open>delay(5)\<close>) while the state is not terminal and less than 40 ms of game
  time have passed.
\<close>

definition proxyState :: "State list \<Rightarrow> error + (State \<times> State list)" where
  "proxyState script = (case script of [] \<Rightarrow> Inl EnvironmentError | x # rest \<Rightarrow> Inr (x, rest))"

fun poll :: "State \<Rightarrow> State list \<Rightarrow> error + (State \<times> State list)" where
  "poll state [] = Inl EnvironmentError"
| "poll state (nextState # rest) =
     (if \<not> isDone nextState \<and> time nextState - time state < 40 then poll state rest
      else Inr (nextState, rest))"

text \<open>
  The right-hand side of the assignment to \<^verbatim>\<open>epsilon\<close>,
  \<^verbatim>\<open>epsilonEnd + (epsilonStart - epsilonEnd) * Math.exp(-1 * episode / epsilonDecay)\<close>,
  in double precision; the parameters are the doubles the caller passes and \<open>-1 * episode\<close>
  is exact. \<open>decayedValue\<close> is the double it yields for a decay constant other than 0.
  For a decay constant of 0 the quotient is \<open>-0 / 0\<close>, that is NaN, in episode 0 and
  minus infinity afterwards, whose exponential is 0.
\<close>

definition decayedValue :: "config \<Rightarrow> nat \<Rightarrow> real" where
  "decayedValue cfg episode =
     dround (epsilonEnd cfg
       + dround (dround (epsilonStart cfg - epsilonEnd cfg)
           * mathExp (dround (- 1 * real episode / epsilonDecay cfg))))"

definition decayedEpsilon :: "config \<Rightarrow> nat \<Rightarrow> num" where
  "decayedEpsilon cfg episode =
     (if epsilonDecay cfg = 0 then
        (if episode = 0 then NaN
         else Num (dround (epsilonEnd cfg
                + dround (dround (epsilonStart cfg - epsilonEnd cfg) * 0))))
      else Num (decayedValue cfg episode))"

text \<open>
  The evaluation of a step, from \<^verbatim>\<open>const timeDelta\<close> to the end of the \<^verbatim>\<open>else\<close> branch.
  \<open>acceptStep\<close> is that branch after \<^verbatim>\<open>nextStateTensor\<close> has been computed.
\<close>

definition acceptStep ::
  "config \<Rightarrow> nat \<Rightarrow> nat \<Rightarrow> num list \<Rightarrow> num list \<Rightarrow> bool \<Rightarrow> 'w session \<Rightarrow> 'w session"
where
  "acceptStep cfg episode action stateTensor nextStateTensor terminal s =
     (let reward = (if terminal then - 1 else if action = 1 then 0 else 1 / 10);
          s1 = emit (AddReward reward) (s\<lparr>episodeReward := episodeReward s + reward\<rparr>);
          experience = \<lparr>tState = stateTensor, tAction = action, tReward = reward,
                         tNextState = nextStateTensor, tDone = terminal\<rparr>;
          s2 = emit (MemoryAdd experience) (s1\<lparr>memory := memoryAdd (memory s1) experience\<rparr>);
          eps = decayedEpsilon cfg episode
      in emit (SetEpsilon eps) (s2\<lparr>epsilon := eps\<rparr>))"

definition evaluateStep ::
  "config \<Rightarrow> nat \<Rightarrow> State \<Rightarrow> nat \<Rightarrow> num list \<Rightarrow> State \<Rightarrow> 'w session \<Rightarrow> error + 'w session"
where
  "evaluateStep cfg episode state action stateTensor nextState s =
     (let timeDelta = time nextState - time state
      in if timeDelta < 40 \<or> 60 < timeDelta then
           (if \<not> isDone nextState then Inr (emit (ConsoleWarn timeDelta) s) else Inr s)
         else
           (case stateToTensor (rawState nextState) of
              Inl e \<Rightarrow> Inl e
            | Inr nextStateTensor \<Rightarrow>
                Inr (acceptStep cfg episode action stateTensor nextStateTensor
                       (isDone nextState) s)))"

text \<open>
  One pass through the body of \<^verbatim>\<open>while (!state.done)\<close>: the next state, the rest of the
  script and the session after it.
\<close>

definition episodeStep ::
  "'w fit \<Rightarrow> (nat \<Rightarrow> real) \<Rightarrow> config \<Rightarrow> nat \<Rightarrow> State \<Rightarrow> State list \<Rightarrow> 'w session
     \<Rightarrow> error + (State \<times> State list \<times> 'w session)"
where
  "episodeStep fit rnd cfg episode state script s =
     (case stateToTensor (rawState state) of
        Inl e \<Rightarrow> Inl e
      | Inr stateTensor \<Rightarrow>
          (let (action, k) = selectAction rnd (online s) stateTensor (epsilon s) (randomCalls s);
               s1 = emit (PerformAction action) (s\<lparr>randomCalls := k\<rparr>);
               s2 = optimizationStep fit rnd cfg s1
           in case poll state script of
                Inl e \<Rightarrow> Inl e
              | Inr (nextState, rest) \<Rightarrow>
                  (case evaluateStep cfg episode state action stateTensor nextState s2 of
                     Inl e \<Rightarrow> Inl e
                   | Inr s3 \<Rightarrow> Inr (nextState, rest, s3))))"


text \<open>
  The loop \<^verbatim>\<open>while (!state.done)\<close>. Every pass fetches at least one state, so the loop
  ends with the script at the latest; it returns the rest of the script and the session.
\<close>

lemma poll_shorter: "poll state script = Inr (nextState, rest) \<Longrightarrow> length rest < length script"
  by (induction script) (auto split: if_splits)

lemma episodeStep_shorter:
  "episodeStep fit rnd cfg episode state script s = Inr (nextState, rest, s') \<Longrightarrow>
     length rest < length script"
  by (auto simp: episodeStep_def Let_def split: sum.splits prod.splits dest: poll_shorter)

function runEpisode ::
  "'w fit \<Rightarrow> (nat \<Rightarrow> real) \<Rightarrow> config \<Rightarrow> nat \<Rightarrow> State \<Rightarrow> State list \<Rightarrow> 'w session
     \<Rightarrow> error + (State list \<times> 'w session)"
where
  "runEpisode fit rnd cfg episode state script s =
     (if isDone state then Inr (script, s)
      else
        (case episodeStep fit rnd cfg episode state script s of
           Inl e \<Rightarrow> Inl e
         | Inr (nextState, rest, s') \<Rightarrow> runEpisode fit rnd cfg episode nextState rest s'))"
  by pat_completeness auto
termination
  by (relation "measure (\<lambda>(fit, rnd, cfg, episode, state, script, s). length script)")
    (auto dest: episodeStep_shorter)

text \<open>
  The end of the body of the \<^verbatim>\<open>for\<close> loop: the periodic update of the target model,
  the line for the log file and the reset of \<^verbatim>\<open>episodeReward\<close>. For a frequency of 0,
  JavaScript's \<^verbatim>\<open>%\<close> gives NaN and HOL's \<open>mod\<close> gives \<open>episode + 1\<close>: neither is 0.
\<close>

definition episodeEnd :: "config \<Rightarrow> nat \<Rightarrow> 'w session \<Rightarrow> 'w session" where
  "episodeEnd cfg episode s =
     (let s1 = (if (episode + 1) mod targetUpdateFrequency cfg = 0 then updateTargetModel s
                else s);
          s2 = emit (LogEpisode (episode + 1) (epsilon s1) (episodeReward s1)) s1
      in s2\<lparr>episodeReward := 0\<rparr>)"

text \<open>
  The \<^verbatim>\<open>for\<close> loop over the episodes, from \<open>episode\<close> on, and \<^verbatim>\<open>trainDinoModel\<close>, which
  enters it at episode 0 with \<^verbatim>\<open>epsilon = epsilonStart\<close> and \<^verbatim>\<open>episodeReward = 0\<close>.
\<close>

function trainLoop ::
  "'w fit \<Rightarrow> (nat \<Rightarrow> real) \<Rightarrow> config \<Rightarrow> nat \<Rightarrow> State list \<Rightarrow> 'w session
     \<Rightarrow> error + (State list \<times> 'w session)"
where
  "trainLoop fit rnd cfg episode script s =
     (if episode < episodes cfg then
        (case proxyState script of
           Inl e \<Rightarrow> Inl e
         | Inr (state, rest) \<Rightarrow>
             (case runEpisode fit rnd cfg episode state rest (emit Restart s) of
                Inl e \<Rightarrow> Inl e
              | Inr (rest', s') \<Rightarrow>
                  trainLoop fit rnd cfg (episode + 1) rest' (episodeEnd cfg episode s')))
      else Inr (script, s))"
  by pat_completeness auto
termination
  by (relation "measure (\<lambda>(fit, rnd, cfg, episode, script, s). episodes cfg - episode)") auto

definition trainDinoModel ::
  "'w fit \<Rightarrow> (nat \<Rightarrow> real) \<Rightarrow> config \<Rightarrow> 'w model \<Rightarrow> 'w model \<Rightarrow> Memory \<Rightarrow> State list
     \<Rightarrow> nat \<Rightarrow> (string \<Rightarrow> 'w option) \<Rightarrow> error + (State list \<times> 'w session)"
where
  "trainDinoModel fit rnd cfg onlineModel targetModel mem script k disk =
     trainLoop fit rnd cfg 0 script
       \<lparr>epsilon = Num (epsilonStart cfg), episodeReward = 0, memory = mem, online = onlineModel,
        target = targetModel, randomCalls = k, files = disk, effects = [LogSeparator]\<rparr>"

text \<open>
  Concrete parameters, states and a session, the inputs of further examples. The
  exploration parameters of \<open>wCfgDyadic\<close> are powers of two, numbers that a double holds
  exactly.
\<close>

abbreviation wCfg :: config where
  "wCfg \<equiv> \<lparr>episodes = 3, batchSize = 1, gamma = 9 / 10, epsilonStart = 1,
     epsilonEnd = 1 / 100, epsilonDecay = 200, targetUpdateFrequency = 2\<rparr>"

abbreviation wCfgDyadic :: config where
  "wCfgDyadic \<equiv> \<lparr>episodes = 3, batchSize = 1, gamma = 1 / 2, epsilonStart = 1,
     epsilonEnd = 1 / 128, epsilonDecay = 256, targetUpdateFrequency = 2\<rparr>"

abbreviation wState :: "real \<Rightarrow> bool \<Rightarrow> State" where
  "wState t d \<equiv> \<lparr>obstacles = [], jumping = False, ypos = 93, time = t, isDone = d\<rparr>"

abbreviation wSession :: "real session" where
  "wSession \<equiv> \<lparr>epsilon = 1, episodeReward = 0, memory = \<lparr>capacity = 4, buffer = [wExp]\<rparr>,
     online = wOnline, target = wTarget, randomCalls = 0, files = (\<lambda>p. None), effects = []\<rparr>"

abbreviation wRnd :: "nat \<Rightarrow> real" where
  "wRnd \<equiv> (\<lambda>k. 1 / 2)"

abbreviation wFitFail :: "real fit" where
  "wFitFail \<equiv> (\<lambda>m xs ys n. Inl OptimizationError)"

section \<open>Properties of rounding\<close>

lemma roundEven_of_int: "roundEven (of_int n) = n"
  by (simp add: roundEven_def)

lemma roundEven_range: "\<lfloor>x\<rfloor> \<le> roundEven x" "roundEven x \<le> \<lfloor>x\<rfloor> + 1"
  by (simp_all add: roundEven_def Let_def)

lemma roundEven_mono:
  assumes "x \<le> y"
  shows "roundEven x \<le> roundEven y"
proof (cases "\<lfloor>x\<rfloor> = \<lfloor>y\<rfloor>")
  case True
  have "x - of_int \<lfloor>x\<rfloor> \<le> y - of_int \<lfloor>y\<rfloor>" using assms True by simp
  then show ?thesis using True by (auto simp: roundEven_def Let_def)
next
  case False
  with assms have "\<lfloor>x\<rfloor> < \<lfloor>y\<rfloor>" using floor_mono [OF assms] by linarith
  then have "\<lfloor>x\<rfloor> + 1 \<le> \<lfloor>y\<rfloor>" by simp
  with roundEven_range(2) [of x] roundEven_range(1) [of y] show ?thesis by linarith
qed

lemma roundEven_minus: "roundEven (- x) = - roundEven x"
proof (cases "x = of_int \<lfloor>x\<rfloor>")
  case True
  then obtain n where "x = of_int n" ..
  then have "- x = of_int (- n)" by simp
  then show ?thesis using \<open>x = of_int n\<close> by (simp only: roundEven_of_int)
next
  case False
  then have c: "\<lceil>x\<rceil> = \<lfloor>x\<rfloor> + 1"
    by (metis ceiling_altdef of_int_floor_cancel)
  have fl: "\<lfloor>- x\<rfloor> = - \<lfloor>x\<rfloor> - 1"
    using c by (simp add: ceiling_def)
  show ?thesis
    unfolding roundEven_def Let_def fl
    by (auto simp: algebra_simps)
qed


lemma roundBinary_zero: "roundBinary p emin 0 = 0"
  by (simp add: roundBinary_def)

lemma roundBinary_minus: "roundBinary p emin (- x) = - roundBinary p emin x"
  by (simp add: roundBinary_def Let_def roundEven_minus)

text \<open>The exponent chosen for a positive number and the two bounds it gives.\<close>

lemma exponent_bounds:
  fixes emin :: int
  assumes "0 < x"
  shows "x < 2 powr of_int (max emin \<lfloor>log 2 x\<rfloor> + 1)"
    and "emin \<le> \<lfloor>log 2 x\<rfloor> \<Longrightarrow> 2 powr of_int (max emin \<lfloor>log 2 x\<rfloor>) \<le> x"
proof -
  let ?k = "\<lfloor>log 2 x\<rfloor>"
  let ?e = "max emin ?k"
  have k: "2 powr of_int ?k \<le> x" "x < 2 powr (of_int ?k + 1)"
    using floor_log_eq_powr_iff [of x 2 ?k] assms(1) by simp_all
  have "of_int ?k + 1 \<le> (of_int (?e + 1) :: real)" by simp
  then have "2 powr (of_int ?k + 1) \<le> (2::real) powr of_int (?e + 1)"
    by (simp only: powr_le_cancel_iff one_less_numeral_iff semiring_norm)
  with k(2) show "x < 2 powr of_int (?e + 1)" by linarith
  show "2 powr of_int ?e \<le> x" if "emin \<le> ?k"
  proof -
    from that have "?e = ?k" by (simp add: max_def)
    with k(1) show ?thesis by simp
  qed
qed

lemma roundBinary_pos_eq:
  assumes "0 < x"
  shows "roundBinary p emin x =
    of_int (roundEven (x / 2 powr of_int (max emin \<lfloor>log 2 x\<rfloor> - int p + 1)))
      * 2 powr of_int (max emin \<lfloor>log 2 x\<rfloor> - int p + 1)"
  using assms by (simp add: roundBinary_def Let_def)

lemma two_powr_nat: "(2::real) powr of_int (int p) = of_int (2 ^ p)"
  by (simp add: powr_realpow)

lemma roundBinary_upper:
  assumes "0 < x"
  shows "roundBinary p emin x \<le> 2 powr of_int (max emin \<lfloor>log 2 x\<rfloor> + 1)"
proof -
  let ?e = "max emin \<lfloor>log 2 x\<rfloor>"
  let ?u = "(2::real) powr of_int (?e - int p + 1)"
  have u: "0 < ?u" by simp
  have split: "(2::real) powr of_int (?e + 1) = 2 powr of_int (int p) * ?u"
    by (simp add: powr_add [symmetric])
  have "x < 2 powr of_int (?e + 1)" by (rule exponent_bounds(1) [OF assms])
  then have "x < 2 powr of_int (int p) * ?u" by (simp only: split)
  then have "x / ?u < 2 powr of_int (int p)"
    using u by (simp only: pos_divide_less_eq)
  then have "x / ?u \<le> 2 powr of_int (int p)" by simp
  then have "x / ?u \<le> of_int (2 ^ p)" by (simp only: two_powr_nat)
  from roundEven_mono [OF this] have "roundEven (x / ?u) \<le> 2 ^ p"
    by (simp only: roundEven_of_int)
  then have "(of_int (roundEven (x / ?u)) :: real) \<le> of_int (2 ^ p)"
    by (simp only: of_int_le_iff)
  then have "of_int (roundEven (x / ?u)) * ?u \<le> of_int (2 ^ p) * ?u"
    using u by (simp only: mult_le_cancel_right_pos)
  then show ?thesis
    by (simp only: roundBinary_pos_eq [OF assms] split two_powr_nat)
qed

lemma roundBinary_lower:
  assumes "0 < x" and "0 < p" and "emin \<le> \<lfloor>log 2 x\<rfloor>"
  shows "2 powr of_int (max emin \<lfloor>log 2 x\<rfloor>) \<le> roundBinary p emin x"
proof -
  let ?e = "max emin \<lfloor>log 2 x\<rfloor>"
  let ?u = "(2::real) powr of_int (?e - int p + 1)"
  have u: "0 < ?u" by simp
  have "?e = int (p - 1) + (?e - int p + 1)" using assms(2) by simp
  then have "(2::real) powr of_int ?e = 2 powr of_int (int (p - 1) + (?e - int p + 1))"
    by simp
  also have "\<dots> = 2 powr of_int (int (p - 1)) * ?u"
    by (simp only: of_int_add powr_add)
  finally have split: "(2::real) powr of_int ?e = 2 powr of_int (int (p - 1)) * ?u" .
  have "2 powr of_int ?e \<le> x" by (rule exponent_bounds(2) [OF assms(1,3)])
  then have "2 powr of_int (int (p - 1)) * ?u \<le> x" by (simp only: split)
  then have "2 powr of_int (int (p - 1)) \<le> x / ?u"
    using u by (simp only: pos_le_divide_eq)
  then have "of_int (2 ^ (p - 1)) \<le> x / ?u" by (simp only: two_powr_nat)
  from roundEven_mono [OF this] have "2 ^ (p - 1) \<le> roundEven (x / ?u)"
    by (simp only: roundEven_of_int)
  then have "(of_int (2 ^ (p - 1)) :: real) \<le> of_int (roundEven (x / ?u))"
    by (simp only: of_int_le_iff)
  then have "of_int (2 ^ (p - 1)) * ?u \<le> of_int (roundEven (x / ?u)) * ?u"
    using u by (simp only: mult_le_cancel_right_pos)
  then show ?thesis
    by (simp only: roundBinary_pos_eq [OF assms(1)] split two_powr_nat)
qed

lemma roundBinary_nonneg:
  assumes "0 \<le> x"
  shows "0 \<le> roundBinary p emin x"
proof (cases "x = 0")
  case True
  then show ?thesis by (simp add: roundBinary_zero)
next
  case False
  with assms have pos: "0 < x" by simp
  let ?u = "(2::real) powr of_int (max emin \<lfloor>log 2 x\<rfloor> - int p + 1)"
  have "(0::real) \<le> x / ?u" using pos by simp
  then have "of_int 0 \<le> x / ?u" by simp
  from roundEven_mono [OF this] have "0 \<le> roundEven (x / ?u)"
    by (simp only: roundEven_of_int)
  then show ?thesis by (simp add: roundBinary_pos_eq [OF pos])
qed

lemma roundBinary_mono_pos:
  assumes "0 < x" and "x \<le> y" and "0 < p"
  shows "roundBinary p emin x \<le> roundBinary p emin y"
proof -
  have ypos: "0 < y" using assms by simp
  let ?ex = "max emin \<lfloor>log 2 x\<rfloor>"
  let ?ey = "max emin \<lfloor>log 2 y\<rfloor>"
  have "log 2 x \<le> log 2 y" using assms by simp
  then have fl: "\<lfloor>log 2 x\<rfloor> \<le> \<lfloor>log 2 y\<rfloor>" by (rule floor_mono)
  then have le: "?ex \<le> ?ey" by simp
  show ?thesis
  proof (cases "?ex = ?ey")
    case True
    let ?u = "(2::real) powr of_int (?ex - int p + 1)"
    have "x / ?u \<le> y / ?u" using assms(2) by (simp add: divide_right_mono)
    from roundEven_mono [OF this]
    have "(of_int (roundEven (x / ?u)) :: real) \<le> of_int (roundEven (y / ?u))" by simp
    then have "of_int (roundEven (x / ?u)) * ?u \<le> of_int (roundEven (y / ?u)) * ?u"
      by (simp only: mult_le_cancel_right_pos powr_gt_zero)
    then show ?thesis
      by (simp only: roundBinary_pos_eq [OF assms(1)] roundBinary_pos_eq [OF ypos] True)
  next
    case False
    with le have lt: "?ex < ?ey" by linarith
    then have "emin \<le> \<lfloor>log 2 y\<rfloor>" by linarith
    from roundBinary_lower [OF ypos assms(3) this]
    have low: "2 powr of_int ?ey \<le> roundBinary p emin y" .
    have up: "roundBinary p emin x \<le> 2 powr of_int (?ex + 1)"
      by (rule roundBinary_upper [OF assms(1)])
    from lt have "?ex + 1 \<le> ?ey" by linarith
    then have "of_int (?ex + 1) \<le> (of_int ?ey :: real)" by (simp only: of_int_le_iff)
    then have "(2::real) powr of_int (?ex + 1) \<le> 2 powr of_int ?ey"
      by (simp only: powr_le_cancel_iff one_less_numeral_iff semiring_norm)
    with low up show ?thesis by linarith
  qed
qed

lemma roundBinary_mono:
  assumes "x \<le> y" and "0 < p"
  shows "roundBinary p emin x \<le> roundBinary p emin y"
proof -
  consider "0 < x" | "x \<le> 0" "0 \<le> y" | "y < 0" by linarith
  then show ?thesis
  proof cases
    case 1
    then show ?thesis by (rule roundBinary_mono_pos [OF _ assms])
  next
    case 2
    have "roundBinary p emin x = - roundBinary p emin (- x)"
      by (simp add: roundBinary_minus)
    moreover have "0 \<le> roundBinary p emin (- x)"
      using 2(1) by (intro roundBinary_nonneg) simp
    moreover have "0 \<le> roundBinary p emin y"
      using 2(2) by (rule roundBinary_nonneg)
    ultimately show ?thesis by linarith
  next
    case 3
    then have "0 < - y" "- y \<le> - x" using assms(1) by simp_all
    from roundBinary_mono_pos [OF this assms(2)]
    show ?thesis by (simp add: roundBinary_minus)
  qed
qed


text \<open>Evaluation at a number whose binade is known.\<close>

lemma roundBinary_binade:
  assumes "0 < x" and "2 powr of_int k \<le> x" and "x < 2 powr of_int (k + 1)" and "emin \<le> k"
  shows "roundBinary p emin x =
    of_int (roundEven (x / 2 powr of_int (k - int p + 1))) * 2 powr of_int (k - int p + 1)"
proof -
  have "\<lfloor>log 2 x\<rfloor> = k"
    using assms(1-3) floor_log_eq_powr_iff [of x 2 k] by simp
  with assms(4) have "max emin \<lfloor>log 2 x\<rfloor> = k" by simp
  then show ?thesis by (simp add: roundBinary_pos_eq [OF assms(1)])
qed

text \<open>Both formats round monotonically and keep 0.\<close>

lemma fround_mono: "x \<le> y \<Longrightarrow> fround x \<le> fround y"
  unfolding fround_def by (rule roundBinary_mono) simp_all


lemma dround_zero: "dround 0 = 0"
  by (simp add: dround_def roundBinary_zero)




lemma fround_one: "fround 1 = 1"
proof -
  have "roundBinary 24 (- 126) 1 =
    of_int (roundEven (1 / 2 powr of_int (0 - int 24 + 1))) * 2 powr of_int (0 - int 24 + 1)"
    by (rule roundBinary_binade) simp_all
  also have "2 powr of_int (0 - int 24 + 1) = (1 / 8388608 :: real)"
    by (simp add: powr_minus_divide)
  also have "roundEven (1 / (1 / 8388608)) = 8388608"
    by (simp add: roundEven_def Let_def)
  finally show ?thesis by (simp add: fround_def)
qed

lemma fround_minus_one: "fround (- 1) = - 1"
  using fround_one by (simp add: fround_def roundBinary_minus)



section \<open>Properties of the state encoder\<close>

lemma length_arraySet: "i < length xs \<Longrightarrow> length (arraySet xs i v) = length xs"
  by (simp add: arraySet_def)

lemma nth_arraySet:
  "i < length xs \<Longrightarrow> arraySet xs i v ! k = (if k = i then v else xs ! k)"
  by (simp add: arraySet_def nth_list_update)

lemma distance_bounds: "0 \<le> distance ob" "distance ob \<le> 39"
  by (simp_all add: distance_def)

lemma nat_distance_less: "nat (distance ob) < 40"
  using distance_bounds [of ob] by simp

lemma length_obstacleToVector:
  assumes "length vector = 88" and "offset \<le> 45"
  shows "length (obstacleToVector ob vector offset) = 88"
  using assms nat_distance_less [of ob]
  by (simp add: obstacleToVector_def Let_def length_arraySet)

lemma nth_obstacleToVector_outside:
  assumes "length vector = 88" and "offset \<le> 45"
    and "k < offset \<or> offset + 43 \<le> k"
  shows "obstacleToVector ob vector offset ! k = vector ! k"
  using assms nat_distance_less [of ob]
  by (auto simp add: obstacleToVector_def Let_def length_arraySet nth_arraySet)

lemma nth_obstacleToVector_bucket:
  assumes "length vector = 88" and "offset \<le> 45" and "j < 40"
  shows "obstacleToVector ob vector offset ! (offset + j) =
           (if j = nat (distance ob) then 1 else vector ! (offset + j))"
  using assms nat_distance_less [of ob]
  by (auto simp add: obstacleToVector_def Let_def length_arraySet nth_arraySet)

lemma length_stateVector: "length (stateVector state) = 88"
  by (simp add: stateVector_def Let_def length_arraySet length_obstacleToVector)

lemma bitNotNot_in_range:
  assumes "- 2147483649 < q" and "q < 2147483648"
  shows "bitNotNot q = truncReal q"
proof -
  have lo: "- 2147483648 \<le> truncReal q"
  proof (cases "0 \<le> q")
    case True
    then have "0 \<le> \<lfloor>q\<rfloor>" by simp
    with True show ?thesis by (simp add: truncReal_def)
  next
    case False
    have "- 2147483648 \<le> \<lceil>q\<rceil>" using assms(1) by (simp add: le_ceiling_iff)
    with False show ?thesis by (simp add: truncReal_def)
  qed
  have hi: "truncReal q < 2147483648"
  proof (cases "0 \<le> q")
    case True
    have "\<lfloor>q\<rfloor> < 2147483648" using assms(2) by (simp add: floor_less_iff)
    with True show ?thesis by (simp add: truncReal_def)
  next
    case False
    then have "\<lceil>q\<rceil> \<le> 0" by (simp add: ceiling_le_iff)
    with False show ?thesis by (simp add: truncReal_def)
  qed
  from lo hi show ?thesis
    unfolding toInt32_def bitNotNot_def by simp
qed

lemma clamp_truncReal: "min 39 (max 0 (truncReal q)) = max 0 (min 39 \<lfloor>q\<rfloor>)"
proof (cases "0 \<le> q")
  case True
  then have "0 \<le> \<lfloor>q\<rfloor>" by simp
  with True show ?thesis by (simp add: truncReal_def min_def max_def)
next
  case False
  define c where "c = \<lceil>q\<rceil>"
  define f where "f = \<lfloor>q\<rfloor>"
  have "c \<le> 0" using False by (simp add: c_def ceiling_le_iff)
  moreover have "f < 0" using False by (simp add: f_def floor_less_iff)
  ultimately have "min 39 (max 0 c) = max 0 (min 39 f)" by simp
  with False show ?thesis by (simp add: truncReal_def c_def f_def)
qed

lemma distance_in_range:
  assumes "- 2147483649 < (xPos ob - 19) / 16" and "(xPos ob - 19) / 16 < 2147483648"
  shows "distance ob = max 0 (min 39 \<lfloor>(xPos ob - 19) / 16\<rfloor>)"
  unfolding distance_def using bitNotNot_in_range [OF assms] clamp_truncReal by simp

text \<open>
  Claim C3, as the code has it. The distance bucket that \<^verbatim>\<open>obstacleToVector\<close> encodes
  equals \<open>clamp(floor((xPos - 19) / 16), 0, 39)\<close> whenever the quotient
  \<open>(xPos - 19) / 16\<close> truncates to a signed 32-bit integer, that is for
  \<open>-2^31 - 1 < (xPos - 19) / 16 < 2^31\<close>. In that range every \<open>xPos \<le> 19\<close> falls
  into bucket 0 and every \<open>xPos \<ge> 19 + 39 * 16\<close> into bucket 39, and the only
  entry of the obstacle's 40-wide segment that is set to 1 is the one at the bucket.
\<close>

theorem distance_bucket_clamp:
  assumes "- 2147483649 < (xPos ob - 19) / 16" and "(xPos ob - 19) / 16 < 2147483648"
  shows "distance ob = max 0 (min 39 \<lfloor>(xPos ob - 19) / 16\<rfloor>)
    \<and> (xPos ob \<le> 19 \<longrightarrow> distance ob = 0)
    \<and> (19 + 39 * 16 \<le> xPos ob \<longrightarrow> distance ob = 39)
    \<and> (\<forall>offset j. offset \<le> 45 \<and> j < 40 \<longrightarrow>
          obstacleToVector ob (replicate 88 0) offset ! (offset + j) =
            (if int j = max 0 (min 39 \<lfloor>(xPos ob - 19) / 16\<rfloor>) then 1 else 0))"
proof -
  let ?q = "(xPos ob - 19) / 16"
  have eq: "distance ob = max 0 (min 39 \<lfloor>?q\<rfloor>)"
    by (rule distance_in_range [OF assms])
  have low: "distance ob = 0" if "xPos ob \<le> 19"
  proof -
    from that have "?q \<le> 0" by simp
    then have "\<lfloor>?q\<rfloor> \<le> 0" by (simp add: floor_le_iff)
    with eq show ?thesis by simp
  qed
  have high: "distance ob = 39" if "19 + 39 * 16 \<le> xPos ob"
  proof -
    from that have "39 \<le> ?q" by simp
    then have "39 \<le> \<lfloor>?q\<rfloor>" by (simp add: le_floor_iff)
    with eq show ?thesis by simp
  qed
  have hot: "obstacleToVector ob (replicate 88 0) offset ! (offset + j) =
      (if int j = max 0 (min 39 \<lfloor>?q\<rfloor>) then 1 else 0)"
    if "offset \<le> 45" and "j < 40" for offset j
  proof -
    have "(j = nat (distance ob)) = (int j = distance ob)"
      using distance_bounds(1) [of ob] by auto
    with that eq show ?thesis
      by (simp add: nth_obstacleToVector_bucket)
  qed
  from eq low high hot show ?thesis by blast
qed

theorem distance_bucket_clamp_witness:
  "- 2147483649 < (xPos \<lparr>xPos = 700, yPos = 75, width = 34, osize = 2\<rparr> - 19) / 16
    \<and> (xPos \<lparr>xPos = 700, yPos = 75, width = 34, osize = 2\<rparr> - 19) / 16 < 2147483648
    \<and> 19 + 39 * 16 \<le> xPos \<lparr>xPos = 700, yPos = 75, width = 34, osize = 2\<rparr>
    \<and> distance \<lparr>xPos = 700, yPos = 75, width = 34, osize = 2\<rparr> = 39
    \<and> obstacleToVector \<lparr>xPos = 700, yPos = 75, width = 34, osize = 2\<rparr>
          (replicate 88 0) 43 ! (43 + 39) = 1
    \<and> xPos \<lparr>xPos = 3, yPos = 75, width = 34, osize = 2\<rparr> \<le> 19
    \<and> distance \<lparr>xPos = 3, yPos = 75, width = 34, osize = 2\<rparr> = 0"
proof -
  let ?far = "\<lparr>xPos = 700, yPos = 75, width = 34, osize = 2\<rparr>"
  let ?near = "\<lparr>xPos = 3, yPos = 75, width = 34, osize = 2\<rparr>"
  have far: "- 2147483649 < (xPos ?far - 19) / 16" "(xPos ?far - 19) / 16 < 2147483648"
    by simp_all
  have near: "- 2147483649 < (xPos ?near - 19) / 16" "(xPos ?near - 19) / 16 < 2147483648"
    by simp_all
  note F = distance_bucket_clamp [OF far]
  note N = distance_bucket_clamp [OF near]
  from F have "distance ?far = 39" by simp
  moreover from F [THEN conjunct2, THEN conjunct2, THEN conjunct2, rule_format, of 43 39]
  have "obstacleToVector ?far (replicate 88 0) 43 ! (43 + 39) = 1" by simp
  moreover from N have "distance ?near = 0" by simp
  ultimately show ?thesis using far by simp
qed

text \<open>
  Claim C3 as stated fails outside that range, because \<^verbatim>\<open>~~\<close> wraps modulo \<open>2^32\<close>
  before the clamp is applied: at \<open>xPos = 19 + 16 * 2^31\<close> the quotient \<open>2^31\<close> wraps
  to \<open>-2^31\<close> and the bucket is 0 instead of 39; at \<open>xPos = 19 - 16 * (2^31 + 1)\<close> the
  quotient wraps to \<open>2^31 - 1\<close> and the bucket is 39 instead of 0.
\<close>

theorem distance_bucket_wraps:
  "19 + 39 * 16 \<le> xPos \<lparr>xPos = 34359738387, yPos = 75, width = 34, osize = 2\<rparr>
    \<and> distance \<lparr>xPos = 34359738387, yPos = 75, width = 34, osize = 2\<rparr> = 0
    \<and> xPos \<lparr>xPos = - 34359738365, yPos = 75, width = 34, osize = 2\<rparr> \<le> 19
    \<and> distance \<lparr>xPos = - 34359738365, yPos = 75, width = 34, osize = 2\<rparr> = 39"
  by (simp add: distance_def bitNotNot_def toInt32_def truncReal_def)

lemma stateToTensor_rawState: "stateToTensor (rawState state) = Inr (stateVector state)"
proof -
  have len: "length (stateVector state) = 88" by (rule length_stateVector)
  have "stateToTensor (rawState state) = tensor2d (stateVector state) 1 88"
    by (simp add: stateToTensor_def rawState_def stateVector_def entryToVector_def Let_def)
  with len show ?thesis by (simp add: tensor2d_def)
qed

lemma length_entryToVector:
  assumes "entryToVector en vector offset = Inr w" and "length vector = 88" and "offset \<le> 45"
  shows "length w = 88"
  using assms
  by (cases en)
    (auto simp: entryToVector_def Let_def length_arraySet length_obstacleToVector)

lemma nth_entryToVector_outside:
  assumes "entryToVector en vector offset = Inr w" and "length vector = 88" and "offset \<le> 45"
    and "k < offset \<or> offset + 43 \<le> k"
  shows "w ! k = vector ! k"
  using assms
  by (cases en)
    (auto simp: entryToVector_def Let_def length_arraySet nth_arraySet
      nth_obstacleToVector_outside)

lemma entryToVector_Inr: "en \<noteq> Nullish \<Longrightarrow> \<exists>w. entryToVector en vector offset = Inr w"
  by (cases en) (simp_all add: entryToVector_def Let_def)

text \<open>
  Claim C8, as the code has it. \<^verbatim>\<open>stateToTensor\<close> throws a \<^verbatim>\<open>TypeError\<close> when the field
  \<^verbatim>\<open>obstacles\<close> is missing or null, and when one of the first two entries of the array
  is null or undefined. In every other case it returns a vector of 88 entries, in
  which, with fewer than two obstacles, the second obstacle block (indices 43 to 85) is
  all zero and, with no obstacle, both blocks (indices 0 to 85) are. In particular it
  returns \<open>stateVector\<close> for every state of the record \<open>State\<close>.
\<close>

theorem stateToTensor_result:
  "(rawObstacles raw = None \<longrightarrow> stateToTensor raw = Inl TypeError)
   \<and> (\<forall>obs. rawObstacles raw = Some obs
          \<and> (0 < length obs \<and> obs ! 0 = Nullish \<or> 1 < length obs \<and> obs ! 1 = Nullish) \<longrightarrow>
        stateToTensor raw = Inl TypeError)
   \<and> (\<forall>obs. rawObstacles raw = Some obs
          \<and> (0 < length obs \<longrightarrow> obs ! 0 \<noteq> Nullish) \<and> (1 < length obs \<longrightarrow> obs ! 1 \<noteq> Nullish) \<longrightarrow>
        (\<exists>v. stateToTensor raw = Inr v \<and> length v = 88
           \<and> (length obs < 2 \<longrightarrow> (\<forall>k. 43 \<le> k \<and> k < 86 \<longrightarrow> v ! k = 0))
           \<and> (obs = [] \<longrightarrow> (\<forall>k. k < 86 \<longrightarrow> v ! k = 0))))
   \<and> stateToTensor (rawState state) = Inr (stateVector state)
   \<and> length (stateVector state) = 88
   \<and> (length (obstacles state) < 2 \<longrightarrow>
        (\<forall>k. 43 \<le> k \<and> k < 86 \<longrightarrow> stateVector state ! k = 0))
   \<and> (obstacles state = [] \<longrightarrow> (\<forall>k. k < 86 \<longrightarrow> stateVector state ! k = 0))"
proof -
  have missing: "stateToTensor raw = Inl TypeError" if "rawObstacles raw = None"
    using that by (simp add: stateToTensor_def)
  have nullish: "stateToTensor raw = Inl TypeError"
    if "rawObstacles raw = Some obs"
      and "0 < length obs \<and> obs ! 0 = Nullish \<or> 1 < length obs \<and> obs ! 1 = Nullish" for obs
    using that
    by (cases "obs ! 0")
      (auto simp: stateToTensor_def entryToVector_def Let_def split: sum.splits)
  have objects: "\<exists>v. stateToTensor raw = Inr v \<and> length v = 88
           \<and> (length obs < 2 \<longrightarrow> (\<forall>k. 43 \<le> k \<and> k < 86 \<longrightarrow> v ! k = 0))
           \<and> (obs = [] \<longrightarrow> (\<forall>k. k < 86 \<longrightarrow> v ! k = 0))"
    if some: "rawObstacles raw = Some obs"
      and first: "0 < length obs \<longrightarrow> obs ! 0 \<noteq> Nullish"
      and second: "1 < length obs \<longrightarrow> obs ! 1 \<noteq> Nullish" for obs
  proof -
    let ?v0 = "replicate 88 (0::num)"
    consider "obs = []" | "length obs = 1" | "1 < length obs"
      by (cases obs) (auto simp: less_Suc_eq_0_disj)
    then show ?thesis
    proof cases
      case 1
      with some show ?thesis
        by (simp add: stateToTensor_def Let_def tensor2d_def length_arraySet nth_arraySet)
    next
      case 2
      with first obtain w where w: "entryToVector (obs ! 0) ?v0 0 = Inr w"
        using entryToVector_Inr [of "obs ! 0" ?v0 0] by auto
      have lw: "length w = 88" by (rule length_entryToVector [OF w]) simp_all
      have zw: "w ! k = 0" if "43 \<le> k" "k < 86" for k
        using nth_entryToVector_outside [OF w, of k] that by simp
      from 2 have ne: "obs \<noteq> []" by auto
      from some 2 ne w lw zw show ?thesis
        by (simp add: stateToTensor_def Let_def tensor2d_def length_arraySet nth_arraySet)
    next
      case 3
      with first obtain w where w: "entryToVector (obs ! 0) ?v0 0 = Inr w"
        using entryToVector_Inr [of "obs ! 0" ?v0 0] by auto
      have lw: "length w = 88" by (rule length_entryToVector [OF w]) simp_all
      from 3 second obtain w' where w': "entryToVector (obs ! 1) w 43 = Inr w'"
        using entryToVector_Inr [of "obs ! 1" w 43] by auto
      have lw': "length w' = 88" by (rule length_entryToVector [OF w' lw]) simp
      from 3 have ne: "obs \<noteq> []" "\<not> length obs < 2" by auto
      from some 3 ne w w' lw' show ?thesis
        by (simp add: stateToTensor_def Let_def tensor2d_def length_arraySet)
    qed
  qed
  have len: "length (stateVector state) = 88"
    by (rule length_stateVector)
  have ok: "stateToTensor (rawState state) = Inr (stateVector state)"
    by (rule stateToTensor_rawState)
  have none: "stateVector state ! k = 0" if "obstacles state = []" and "k < 86" for k
    using that by (simp add: stateVector_def Let_def nth_arraySet length_arraySet)
  have one: "stateVector state ! k = 0"
    if "length (obstacles state) < 2" and "43 \<le> k" and "k < 86" for k
  proof (cases "obstacles state = []")
    case True
    with that show ?thesis by (simp add: none)
  next
    case False
    with that(1) have "0 < length (obstacles state)" "\<not> 1 < length (obstacles state)"
      by simp_all
    with that(2,3) show ?thesis
      by (simp add: stateVector_def Let_def nth_arraySet length_arraySet
          length_obstacleToVector nth_obstacleToVector_outside)
  qed
  from missing nullish objects len ok none one show ?thesis by blast
qed

theorem stateToTensor_result_witness:
  "rawObstacles \<lparr>rawObstacles = None, rawJumping = False, rawYpos = Num 93\<rparr> = None
   \<and> stateToTensor \<lparr>rawObstacles = None, rawJumping = False, rawYpos = Num 93\<rparr>
       = Inl TypeError
   \<and> stateToTensor \<lparr>rawObstacles = Some [EmptyObject, Nullish], rawJumping = False,
         rawYpos = Num 93\<rparr> = Inl TypeError
   \<and> (\<exists>v. stateToTensor \<lparr>rawObstacles =
              Some [Entry \<lparr>xPos = 100, yPos = 75, width = 34, osize = 2\<rparr>],
              rawJumping = True, rawYpos = Num 93\<rparr> = Inr v
        \<and> length v = 88 \<and> v ! 48 = 0)
   \<and> (\<exists>v. stateToTensor \<lparr>rawObstacles = Some [], rawJumping = True,
              rawYpos = Num 93\<rparr> = Inr v
        \<and> length v = 88 \<and> v ! 5 = 0)
   \<and> length (obstacles \<lparr>obstacles = [\<lparr>xPos = 100, yPos = 75, width = 34, osize = 2\<rparr>],
       jumping = True, ypos = 93, time = 0, isDone = False\<rparr>) < 2
   \<and> stateVector \<lparr>obstacles = [\<lparr>xPos = 100, yPos = 75, width = 34, osize = 2\<rparr>],
       jumping = True, ypos = 93, time = 0, isDone = False\<rparr> ! 48 = 0
   \<and> obstacles \<lparr>obstacles = [], jumping = False, ypos = 93, time = 0, isDone = False\<rparr> = []
   \<and> stateVector \<lparr>obstacles = [], jumping = False, ypos = 93, time = 0,
       isDone = False\<rparr> ! 5 = 0"
proof -
  let ?missing = "\<lparr>rawObstacles = None, rawJumping = False, rawYpos = Num 93\<rparr>"
  let ?nullish = "\<lparr>rawObstacles = Some [EmptyObject, Nullish], rawJumping = False,
    rawYpos = Num 93\<rparr>"
  let ?one = "\<lparr>rawObstacles = Some [Entry \<lparr>xPos = 100, yPos = 75, width = 34, osize = 2\<rparr>],
    rawJumping = True, rawYpos = Num 93\<rparr>"
  let ?none = "\<lparr>rawObstacles = Some [], rawJumping = True, rawYpos = Num 93\<rparr>"
  let ?s1 = "\<lparr>obstacles = [\<lparr>xPos = 100, yPos = 75, width = 34, osize = 2\<rparr>],
    jumping = True, ypos = 93, time = 0, isDone = False\<rparr>"
  let ?s0 = "\<lparr>obstacles = [], jumping = False, ypos = 93, time = 0, isDone = False\<rparr>"
  have a: "stateToTensor ?missing = Inl TypeError"
    using stateToTensor_result [of ?missing ?s1] by simp
  have b: "stateToTensor ?nullish = Inl TypeError"
    using stateToTensor_result [of ?nullish ?s1] by simp
  have c: "\<exists>v. stateToTensor ?one = Inr v \<and> length v = 88 \<and> v ! 48 = 0"
    using stateToTensor_result [of ?one ?s1] by auto
  have d: "\<exists>v. stateToTensor ?none = Inr v \<and> length v = 88 \<and> v ! 5 = 0"
    using stateToTensor_result [of ?none ?s1] by auto
  have e: "stateVector ?s1 ! 48 = 0"
    using stateToTensor_result [of ?missing ?s1] by simp
  have f: "stateVector ?s0 ! 5 = 0"
    using stateToTensor_result [of ?missing ?s0] by simp
  from a b c d e f show ?thesis by simp
qed

text \<open>
  Claim C8 as stated fails: the function has an error path, and a malformed obstacle
  list is not encoded as a zero-filled block. A state without the field \<^verbatim>\<open>obstacles\<close>
  and a state whose first obstacle is null both end in a \<^verbatim>\<open>TypeError\<close>; an obstacle
  without fields sets the bit of bucket 0 and leaves NaN in the three numeric entries
  of its block.
\<close>

theorem stateToTensor_throws:
  "stateToTensor \<lparr>rawObstacles = None, rawJumping = False, rawYpos = Num 93\<rparr> = Inl TypeError
   \<and> stateToTensor \<lparr>rawObstacles = Some [Nullish], rawJumping = False, rawYpos = Num 93\<rparr>
       = Inl TypeError
   \<and> (\<exists>v. stateToTensor \<lparr>rawObstacles = Some [EmptyObject], rawJumping = False,
              rawYpos = Num 93\<rparr> = Inr v
        \<and> v ! 0 = 1 \<and> v ! 40 = NaN \<and> v ! 41 = NaN \<and> v ! 42 = NaN)"
  by (simp add: stateToTensor_def entryToVector_def Let_def tensor2d_def arraySet_def)

section \<open>Properties of the learner\<close>


lemma slice_concat_rows:
  assumes "\<forall>r \<in> set rows. length r = n" and "i < length rows"
  shows "slice (concat rows) (i * n) ((i + 1) * n) = rows ! i"
  using assms
proof (induction rows arbitrary: i)
  case Nil
  then show ?case by simp
next
  case (Cons r rows)
  show ?case
  proof (cases i)
    case 0
    with Cons.prems show ?thesis by (simp add: slice_def)
  next
    case (Suc k)
    with Cons.prems have "slice (concat rows) (k * n) ((k + 1) * n) = rows ! k"
      by (intro Cons.IH) simp_all
    with Suc Cons.prems show ?thesis by (simp add: slice_def)
  qed
qed

lemma length_predict: "length (predict m x) = units m"
  by (simp add: predict_def)






lemma targets_nth:
  assumes "units onlineModel = units targetModel" and "i < length experiences"
  shows "targets onlineModel targetModel experiences \<gamma> ! i =
    (predict onlineModel (tState (experiences ! i)))
      [tAction (experiences ! i) :=
         fround (if tDone (experiences ! i) then tReward (experiences ! i)
          else tReward (experiences ! i) + \<gamma> *
            (dataSync (applyModel targetModel (map tNextState experiences)) !
               (units targetModel * i + argMax (predict onlineModel (tNextState (experiences ! i))))))]"
proof -
  let ?rows = "applyModel onlineModel (map tState experiences)"
  have rows: "\<forall>r \<in> set ?rows. length r = units targetModel"
    using assms(1) by (auto simp: applyModel_def length_predict)
  have "slice (dataSync ?rows) (i * units targetModel) ((i + 1) * units targetModel) = ?rows ! i"
    unfolding dataSync_def
    by (rule slice_concat_rows [OF rows]) (simp add: applyModel_def assms(2))
  also have "?rows ! i = predict onlineModel (tState (experiences ! i))"
    using assms(2) by (simp add: applyModel_def)
  finally have sl: "slice (dataSync ?rows) (i * units targetModel) ((i + 1) * units targetModel)
      = predict onlineModel (tState (experiences ! i))" .
  have am: "map argMax (applyModel onlineModel (map tNextState experiences)) ! i
      = argMax (predict onlineModel (tNextState (experiences ! i)))"
    using assms(2) by (simp add: applyModel_def)
  show ?thesis
    using assms(2) sl am by (simp add: targets_def Let_def)
qed





text \<open>
  Claim C2. For a batch entry \<open>i\<close> with \<^verbatim>\<open>done = true\<close>, the target at the index of the
  action taken is the transition's reward itself: neither \<open>gamma\<close> nor the target
  model's output enters it. The reward is one that single precision holds, as the
  \<open>-1\<close> is that the training loop gives every transition with \<^verbatim>\<open>done = true\<close>
  (\<open>fround_minus_one\<close>, \<open>trainDinoModel_done_rewards\<close>, \<open>sampled_done_rewards\<close>).
\<close>

theorem terminal_target:
  assumes "units onlineModel = units targetModel"
    and "i < length experiences"
    and "tDone (experiences ! i)"
    and "tAction (experiences ! i) < units targetModel"
    and "fround (tReward (experiences ! i)) = tReward (experiences ! i)"
  shows "targets onlineModel targetModel experiences \<gamma> ! i ! tAction (experiences ! i) =
      tReward (experiences ! i)"
proof -
  have "length (predict onlineModel (tState (experiences ! i))) = units targetModel"
    by (simp add: length_predict assms(1))
  with assms(3,4,5) show ?thesis
    by (simp add: targets_nth [OF assms(1,2)])
qed

theorem terminal_target_witness:
  "units wOnline = units wTarget \<and> (0::nat) < length [wExpDone] \<and> tDone ([wExpDone] ! 0)
    \<and> tAction ([wExpDone] ! 0) < units wTarget
    \<and> fround (tReward ([wExpDone] ! 0)) = tReward ([wExpDone] ! 0)
    \<and> targets wOnline wTarget [wExpDone] (9/10) ! 0 ! 1 = - 1"
proof -
  have h: "units wOnline = units wTarget" "(0::nat) < length [wExpDone]"
    "tDone ([wExpDone] ! 0)" "tAction ([wExpDone] ! 0) < units wTarget"
    "fround (tReward ([wExpDone] ! 0)) = tReward ([wExpDone] ! 0)"
    by (simp_all add: fround_minus_one)
  from terminal_target [OF h, of "9/10"] h show ?thesis by simp
qed

section \<open>Properties of a step of the training loop\<close>

lemma evaluateStep_accept:
  assumes "40 \<le> time nextState - time state" and "time nextState - time state \<le> 60"
  shows "evaluateStep cfg episode state action stateTensor nextState s =
    Inr (acceptStep cfg episode action stateTensor (stateVector nextState) (isDone nextState) s)"
proof -
  have "stateToTensor (rawState nextState) = Inr (stateVector nextState)"
    by (rule stateToTensor_rawState)
  with assms show ?thesis by (simp add: evaluateStep_def Let_def)
qed

lemma evaluateStep_discard:
  assumes "time nextState - time state < 40 \<or> 60 < time nextState - time state"
  shows "evaluateStep cfg episode state action stateTensor nextState s =
    Inr (s\<lparr>effects := effects s @
      (if isDone nextState then [] else [ConsoleWarn (time nextState - time state)])\<rparr>)"
  using assms by (simp add: evaluateStep_def Let_def emit_def)

text \<open>
  Claim C4. A step whose time delta is below 40 ms or above 60 ms is discarded: the
  session stays as it is (replay memory, \<^verbatim>\<open>episodeReward\<close> and \<^verbatim>\<open>epsilon\<close> included)
  except for the warning, which is written exactly when the next state is not terminal.
  So a non-terminal step with a delta of 25 ms is discarded with a warning, and a step
  with a delta of 45 ms is accepted: its transition is the newest entry of the memory.
\<close>

theorem out_of_window_discarded:
  "(time nextState - time state < 40 \<or> 60 < time nextState - time state \<longrightarrow>
      evaluateStep cfg episode state action stateTensor nextState s =
        Inr (s\<lparr>effects := effects s @
          (if isDone nextState then [] else [ConsoleWarn (time nextState - time state)])\<rparr>))
   \<and> (time nextState - time state = 25 \<and> \<not> isDone nextState \<longrightarrow>
      evaluateStep cfg episode state action stateTensor nextState s =
        Inr (s\<lparr>effects := effects s @ [ConsoleWarn 25]\<rparr>))
   \<and> (time nextState - time state = 45 \<longrightarrow>
      (\<exists>s'. evaluateStep cfg episode state action stateTensor nextState s = Inr s'
         \<and> buffer (memory s') \<noteq> []
         \<and> tState (last (buffer (memory s'))) = stateTensor
         \<and> tAction (last (buffer (memory s'))) = action
         \<and> tNextState (last (buffer (memory s'))) = stateVector nextState
         \<and> tDone (last (buffer (memory s'))) = isDone nextState
         \<and> MemoryAdd (last (buffer (memory s'))) \<in> set (effects s')))"
proof (intro conjI impI)
  assume "time nextState - time state < 40 \<or> 60 < time nextState - time state"
  from evaluateStep_discard [OF this, of cfg episode action stateTensor s]
  show "evaluateStep cfg episode state action stateTensor nextState s =
        Inr (s\<lparr>effects := effects s @
          (if isDone nextState then [] else [ConsoleWarn (time nextState - time state)])\<rparr>)" .
next
  assume a: "time nextState - time state = 25 \<and> \<not> isDone nextState"
  then have "time nextState - time state < 40 \<or> 60 < time nextState - time state" by simp
  from evaluateStep_discard [OF this, of cfg episode action stateTensor s] a
  show "evaluateStep cfg episode state action stateTensor nextState s =
        Inr (s\<lparr>effects := effects s @ [ConsoleWarn 25]\<rparr>)" by simp
next
  assume "time nextState - time state = 45"
  then have "40 \<le> time nextState - time state" "time nextState - time state \<le> 60" by simp_all
  from evaluateStep_accept [OF this, of cfg episode action stateTensor s]
  show "\<exists>s'. evaluateStep cfg episode state action stateTensor nextState s = Inr s'
         \<and> buffer (memory s') \<noteq> []
         \<and> tState (last (buffer (memory s'))) = stateTensor
         \<and> tAction (last (buffer (memory s'))) = action
         \<and> tNextState (last (buffer (memory s'))) = stateVector nextState
         \<and> tDone (last (buffer (memory s'))) = isDone nextState
         \<and> MemoryAdd (last (buffer (memory s'))) \<in> set (effects s')"
    by (simp add: acceptStep_def Let_def emit_def memoryAdd_def)
qed

theorem out_of_window_discarded_witness:
  "time (wState 25 False) - time (wState 0 False) < 40
   \<and> \<not> isDone (wState 25 False)
   \<and> evaluateStep wCfg 0 (wState 0 False) 1 [0] (wState 25 False) wSession =
        Inr (wSession\<lparr>effects := [ConsoleWarn 25]\<rparr>)
   \<and> 60 < time (wState 75 True) - time (wState 0 False)
   \<and> evaluateStep wCfg 0 (wState 0 False) 1 [0] (wState 75 True) wSession = Inr wSession
   \<and> time (wState 45 False) - time (wState 0 False) = 45
   \<and> (\<exists>s'. evaluateStep wCfg 0 (wState 0 False) 1 [0] (wState 45 False) wSession = Inr s'
         \<and> length (buffer (memory s')) = 2 \<and> tAction (last (buffer (memory s'))) = 1)"
proof -
  note A = out_of_window_discarded [of "wState 25 False" "wState 0 False" wCfg 0 1 "[0]" wSession]
  note B = out_of_window_discarded [of "wState 75 True" "wState 0 False" wCfg 0 1 "[0]" wSession]
  note C = out_of_window_discarded [of "wState 45 False" "wState 0 False" wCfg 0 1 "[0]" wSession]
  have a: "evaluateStep wCfg 0 (wState 0 False) 1 [0] (wState 25 False) wSession =
        Inr (wSession\<lparr>effects := [ConsoleWarn 25]\<rparr>)"
    using A by simp
  have b: "evaluateStep wCfg 0 (wState 0 False) 1 [0] (wState 75 True) wSession = Inr wSession"
    using B by simp
  have c: "\<exists>s'. evaluateStep wCfg 0 (wState 0 False) 1 [0] (wState 45 False) wSession = Inr s'
         \<and> length (buffer (memory s')) = 2 \<and> tAction (last (buffer (memory s'))) = 1"
    using C by (auto simp add: evaluateStep_def Let_def stateToTensor_rawState
        acceptStep_def emit_def memoryAdd_def)
  from a b c show ?thesis by simp
qed

text \<open>
  Claim C5. An accepted step stores a transition whose reward is \<open>-1\<close> when the next
  state is terminal, \<open>0\<close> when it is not and the action was 1 (jump), and \<open>0.1\<close>
  otherwise. The reward is added to \<^verbatim>\<open>episodeReward\<close> first, then the transition is
  stored, then \<^verbatim>\<open>epsilon\<close> is assigned: the three effects appear in that order.
\<close>

theorem accepted_step_reward:
  assumes "40 \<le> time nextState - time state" and "time nextState - time state \<le> 60"
  shows "\<exists>s'. evaluateStep cfg episode state action stateTensor nextState s = Inr s'
    \<and> buffer (memory s') =
        (if capacity (memory s) \<le> length (buffer (memory s)) then tl (buffer (memory s))
         else buffer (memory s))
        @ [\<lparr>tState = stateTensor, tAction = action,
             tReward = tReward (last (buffer (memory s'))),
             tNextState = stateVector nextState, tDone = isDone nextState\<rparr>]
    \<and> (isDone nextState \<longrightarrow> tReward (last (buffer (memory s'))) = - 1)
    \<and> (\<not> isDone nextState \<and> action = 1 \<longrightarrow> tReward (last (buffer (memory s'))) = 0)
    \<and> (\<not> isDone nextState \<and> action \<noteq> 1 \<longrightarrow> tReward (last (buffer (memory s'))) = 1 / 10)
    \<and> episodeReward s' = episodeReward s + tReward (last (buffer (memory s')))
    \<and> effects s' = effects s @
          [AddReward (tReward (last (buffer (memory s')))),
           MemoryAdd (last (buffer (memory s'))),
           SetEpsilon (epsilon s')]"
  unfolding evaluateStep_accept [OF assms]
  by (simp add: acceptStep_def Let_def emit_def memoryAdd_def)

theorem accepted_step_reward_witness:
  "40 \<le> time (wState 45 False) - time (wState 0 False)
   \<and> time (wState 45 False) - time (wState 0 False) \<le> 60
   \<and> (\<exists>s'. evaluateStep wCfg 0 (wState 0 False) 0 [0] (wState 45 False) wSession = Inr s'
        \<and> episodeReward s' = 1 / 10
        \<and> tReward (last (buffer (memory s'))) = 1 / 10)
   \<and> (\<exists>s'. evaluateStep wCfg 0 (wState 0 False) 1 [0] (wState 45 False) wSession = Inr s'
        \<and> episodeReward s' = 0)
   \<and> (\<exists>s'. evaluateStep wCfg 0 (wState 0 False) 0 [0] (wState 45 True) wSession = Inr s'
        \<and> episodeReward s' = - 1)"
proof -
  have h: "40 \<le> time (wState 45 False) - time (wState 0 False)"
    "time (wState 45 False) - time (wState 0 False) \<le> 60" by simp_all
  have h': "40 \<le> time (wState 45 True) - time (wState 0 False)"
    "time (wState 45 True) - time (wState 0 False) \<le> 60" by simp_all
  from accepted_step_reward [OF h, of wCfg 0 0 "[0]" wSession]
  have a: "\<exists>s'. evaluateStep wCfg 0 (wState 0 False) 0 [0] (wState 45 False) wSession = Inr s'
        \<and> episodeReward s' = 1 / 10 \<and> tReward (last (buffer (memory s'))) = 1 / 10"
    by auto
  from accepted_step_reward [OF h, of wCfg 0 1 "[0]" wSession]
  have b: "\<exists>s'. evaluateStep wCfg 0 (wState 0 False) 1 [0] (wState 45 False) wSession = Inr s'
        \<and> episodeReward s' = 0"
    by auto
  from accepted_step_reward [OF h', of wCfg 0 0 "[0]" wSession]
  have c: "\<exists>s'. evaluateStep wCfg 0 (wState 0 False) 0 [0] (wState 45 True) wSession = Inr s'
        \<and> episodeReward s' = - 1"
    by auto
  from h a b c show ?thesis by simp
qed









lemma dround_one: "dround 1 = 1"
proof -
  have "roundBinary 53 (- 1022) 1 =
    of_int (roundEven (1 / 2 powr of_int (0 - int 53 + 1))) * 2 powr of_int (0 - int 53 + 1)"
    by (rule roundBinary_binade) simp_all
  also have "2 powr of_int (0 - int 53 + 1) = (1 / 4503599627370496 :: real)"
    by (simp add: powr_minus_divide)
  also have "roundEven (1 / (1 / 4503599627370496)) = 4503599627370496"
    by (simp add: roundEven_def Let_def)
  finally show ?thesis by (simp add: dround_def)
qed


lemma dround_127_128: "dround (127 / 128) = 127 / 128"
proof -
  have "roundBinary 53 (- 1022) (127 / 128) =
    of_int (roundEven ((127 / 128) / 2 powr of_int (- 1 - int 53 + 1)))
      * 2 powr of_int (- 1 - int 53 + 1)"
    by (rule roundBinary_binade) (simp_all add: powr_minus_divide)
  also have "2 powr of_int (- 1 - int 53 + 1) = (1 / 9007199254740992 :: real)"
    by (simp add: powr_minus_divide)
  also have "roundEven ((127 / 128) / (1 / 9007199254740992)) = 8936830510563328"
    by (simp add: roundEven_def Let_def)
  finally show ?thesis by (simp add: dround_def)
qed



section \<open>Properties of the target synchronizer\<close>

lemma updateTargetModel_eq:
  "updateTargetModel s =
     s\<lparr>target := (target s)\<lparr>weights := weights (online s)\<rparr>,
       files := (files s)(''file://./dino-chrome-model/main'' \<mapsto> weights (online s),
                          ''file://./dino-chrome-model/target'' \<mapsto> weights (online s)),
       effects := effects s @ [SaveModel ''file://./dino-chrome-model/main'',
                               SaveModel ''file://./dino-chrome-model/target'']\<rparr>"
  by (simp add: updateTargetModel_def saveModel_def emit_def Let_def)

lemma sync_condition: "(Suc episode mod f = 0) = (f dvd Suc episode)"
  by (simp add: dvd_eq_mod_eq_0)

text \<open>
  Claim C7. At the end of episode number \<open>episode\<close> (counted from 0), that is after
  \<open>episode + 1\<close> completed episodes, \<^verbatim>\<open>updateTargetModel\<close> runs exactly when
  \<open>targetUpdateFrequency\<close> divides \<open>episode + 1\<close>. After it has run the target model has
  the weights the online model had, the online model is unchanged, and both models
  have been saved, the online model under the path ending in \<open>main\<close> and the target
  model under the different path ending in \<open>target\<close>. Without it the target model and
  the saved files stay as they were.
\<close>

theorem target_sync_schedule:
  "episodeEnd cfg episode s =
     (emit (LogEpisode (episode + 1) (epsilon s) (episodeReward s))
        (if targetUpdateFrequency cfg dvd episode + 1 then updateTargetModel s else s))
     \<lparr>episodeReward := 0\<rparr>
   \<and> weights (target (updateTargetModel s)) = weights (online s)
   \<and> online (updateTargetModel s) = online s
   \<and> files (updateTargetModel s) ''file://./dino-chrome-model/main'' = Some (weights (online s))
   \<and> files (updateTargetModel s) ''file://./dino-chrome-model/target'' = Some (weights (online s))
   \<and> effects (updateTargetModel s) =
       effects s @ [SaveModel ''file://./dino-chrome-model/main'',
                    SaveModel ''file://./dino-chrome-model/target'']
   \<and> ''file://./dino-chrome-model/main'' \<noteq> ''file://./dino-chrome-model/target''
   \<and> (targetUpdateFrequency cfg dvd episode + 1 \<longrightarrow>
        weights (target (episodeEnd cfg episode s)) = weights (online s)
        \<and> files (episodeEnd cfg episode s) ''file://./dino-chrome-model/main''
            = Some (weights (online s))
        \<and> files (episodeEnd cfg episode s) ''file://./dino-chrome-model/target''
            = Some (weights (online s))
        \<and> effects (episodeEnd cfg episode s) =
            effects s @ [SaveModel ''file://./dino-chrome-model/main'',
                         SaveModel ''file://./dino-chrome-model/target'',
                         LogEpisode (episode + 1) (epsilon s) (episodeReward s)])
   \<and> (\<not> targetUpdateFrequency cfg dvd episode + 1 \<longrightarrow>
        target (episodeEnd cfg episode s) = target s
        \<and> files (episodeEnd cfg episode s) = files s
        \<and> effects (episodeEnd cfg episode s) =
            effects s @ [LogEpisode (episode + 1) (epsilon s) (episodeReward s)])"
proof -
  have upd: "epsilon (updateTargetModel s) = epsilon s"
    "episodeReward (updateTargetModel s) = episodeReward s"
    by (simp_all add: updateTargetModel_eq)
  have eq: "episodeEnd cfg episode s =
     (emit (LogEpisode (episode + 1) (epsilon s) (episodeReward s))
        (if targetUpdateFrequency cfg dvd episode + 1 then updateTargetModel s else s))
     \<lparr>episodeReward := 0\<rparr>"
    by (simp add: episodeEnd_def Let_def sync_condition upd)
  have paths: "''file://./dino-chrome-model/main'' \<noteq> ''file://./dino-chrome-model/target''"
    by simp
  show ?thesis
    unfolding eq by (simp add: updateTargetModel_eq emit_def)
qed

theorem target_sync_schedule_witness:
  "targetUpdateFrequency wCfg dvd 1 + 1
   \<and> weights (target (episodeEnd wCfg 1 wSession)) = 1
   \<and> files (episodeEnd wCfg 1 wSession) ''file://./dino-chrome-model/main'' = Some 1
   \<and> files (episodeEnd wCfg 1 wSession) ''file://./dino-chrome-model/target'' = Some 1
   \<and> \<not> targetUpdateFrequency wCfg dvd 0 + 1
   \<and> weights (target (episodeEnd wCfg 0 wSession)) = 5
   \<and> files (episodeEnd wCfg 0 wSession) ''file://./dino-chrome-model/main'' = None
   \<and> effects (episodeEnd wCfg 0 wSession) = [LogEpisode 1 1 0]"
proof -
  have a: "targetUpdateFrequency wCfg dvd 1 + 1" by simp
  have b: "\<not> targetUpdateFrequency wCfg dvd 0 + 1" by simp
  note A = target_sync_schedule [of wCfg 1 wSession]
  note B = target_sync_schedule [of wCfg 0 wSession]
  from A a have "weights (target (episodeEnd wCfg 1 wSession)) = 1
     \<and> files (episodeEnd wCfg 1 wSession) ''file://./dino-chrome-model/main'' = Some 1
     \<and> files (episodeEnd wCfg 1 wSession) ''file://./dino-chrome-model/target'' = Some 1"
    by (simp add: emit_def updateTargetModel_eq)
  moreover from B b have "weights (target (episodeEnd wCfg 0 wSession)) = 5
     \<and> files (episodeEnd wCfg 0 wSession) ''file://./dino-chrome-model/main'' = None
     \<and> effects (episodeEnd wCfg 0 wSession) = [LogEpisode 1 1 0]"
    by (simp add: emit_def)
  ultimately show ?thesis using a b by simp
qed

section \<open>Properties of the episode loop\<close>

lemma evaluateStep_total:
  "\<exists>s'. evaluateStep cfg episode state action stateTensor nextState s = Inr s'"
proof (cases "time nextState - time state < 40 \<or> 60 < time nextState - time state")
  case True
  show ?thesis by (simp add: evaluateStep_discard [OF True])
next
  case False
  then have "40 \<le> time nextState - time state" "time nextState - time state \<le> 60"
    by simp_all
  then show ?thesis by (simp add: evaluateStep_accept)
qed

lemma memorySample_guarded:
  "n \<le> length (buffer m) \<Longrightarrow> \<exists>experiences. memorySample rnd k m n = Inr experiences"
  by (simp add: memorySample_def)

lemma optimizationStep_raise:
  assumes "batchSize cfg \<le> length (buffer (memory s))"
    and "sampleAndOptimize fit rnd cfg s = Inl e"
  shows "optimizationStep fit rnd cfg s =
    s\<lparr>randomCalls := randomCalls s + batchSize cfg, effects := effects s @ [ConsoleLog e]\<rparr>"
proof -
  from memorySample_guarded [OF assms(1)]
  obtain experiences where
    "memorySample rnd (randomCalls s) (memory s) (batchSize cfg) = Inr experiences"
    by blast
  with assms show ?thesis
    by (simp add: optimizationStep_def Let_def emit_def)
qed

text \<open>
  Claim C9. In a pass through the loop body in which the memory holds at least
  \<^verbatim>\<open>batchSize\<close> transitions and the body of the \<^verbatim>\<open>try\<close> (sampling and \<^verbatim>\<open>optimizeModel\<close>)
  throws \<open>e\<close>, the exception is written to the console and nothing else of the session
  changes but the count of random draws; the pass then fetches the next state as
  usual, evaluates the step on the session with the logged exception, and the loop goes
  on from that next state. Neither the pass nor the episode ends with \<open>e\<close>.
\<close>

theorem optimization_error_caught:
  assumes "\<not> isDone state"
    and "selectAction rnd (online s) (stateVector state) (epsilon s) (randomCalls s) = (action, k)"
    and "batchSize cfg \<le> length (buffer (memory s))"
    and "sampleAndOptimize fit rnd cfg (emit (PerformAction action) (s\<lparr>randomCalls := k\<rparr>)) = Inl e"
    and "poll state script = Inr (nextState, rest)"
  shows "\<exists>s'. evaluateStep cfg episode state action (stateVector state) nextState
            (s\<lparr>randomCalls := k + batchSize cfg,
               effects := effects s @ [PerformAction action, ConsoleLog e]\<rparr>) = Inr s'
    \<and> episodeStep fit rnd cfg episode state script s = Inr (nextState, rest, s')
    \<and> runEpisode fit rnd cfg episode state script s =
        runEpisode fit rnd cfg episode nextState rest s'"
proof -
  let ?s1 = "emit (PerformAction action) (s\<lparr>randomCalls := k\<rparr>)"
  let ?s2 = "s\<lparr>randomCalls := k + batchSize cfg,
               effects := effects s @ [PerformAction action, ConsoleLog e]\<rparr>"
  have guard: "batchSize cfg \<le> length (buffer (memory ?s1))"
    using assms(3) by (simp add: emit_def)
  have opt: "optimizationStep fit rnd cfg ?s1 = ?s2"
    using optimizationStep_raise [OF guard assms(4)] by (simp add: emit_def)
  obtain s' where ev: "evaluateStep cfg episode state action (stateVector state) nextState ?s2
      = Inr s'"
    using evaluateStep_total by blast
  have enc: "stateToTensor (rawState state) = Inr (stateVector state)"
    by (rule stateToTensor_rawState)
  have step: "episodeStep fit rnd cfg episode state script s = Inr (nextState, rest, s')"
    using assms(2,5) opt ev enc by (simp add: episodeStep_def Let_def)
  have "runEpisode fit rnd cfg episode state script s =
      runEpisode fit rnd cfg episode nextState rest s'"
    using assms(1) step by (subst runEpisode.simps) simp
  with ev step show ?thesis by blast
qed

theorem optimization_error_caught_witness:
  "\<not> isDone (wState 0 False)
   \<and> selectAction wRnd (online wSession) (stateVector (wState 0 False)) (epsilon wSession)
        (randomCalls wSession) = (1, 2)
   \<and> batchSize wCfg \<le> length (buffer (memory wSession))
   \<and> sampleAndOptimize wFitFail wRnd wCfg
        (emit (PerformAction 1) (wSession\<lparr>randomCalls := 2\<rparr>)) = Inl OptimizationError
   \<and> poll (wState 0 False) [wState 45 True] = Inr (wState 45 True, [])
   \<and> (\<exists>s'. episodeStep wFitFail wRnd wCfg 0 (wState 0 False) [wState 45 True] wSession
          = Inr (wState 45 True, [], s')
        \<and> runEpisode wFitFail wRnd wCfg 0 (wState 0 False) [wState 45 True] wSession
          = runEpisode wFitFail wRnd wCfg 0 (wState 45 True) [] s')"
proof -
  have h1: "\<not> isDone (wState 0 False)" by simp
  have h2: "selectAction wRnd (online wSession) (stateVector (wState 0 False)) (epsilon wSession)
        (randomCalls wSession) = (1, 2)"
    by (simp add: selectAction_def lessNum_def one_num_def)
  have h3: "batchSize wCfg \<le> length (buffer (memory wSession))" by simp
  have h4: "sampleAndOptimize wFitFail wRnd wCfg
        (emit (PerformAction 1) (wSession\<lparr>randomCalls := 2\<rparr>)) = Inl OptimizationError"
    by (simp add: sampleAndOptimize_def memorySample_def optimizeModel_def emit_def)
  have h5: "poll (wState 0 False) [wState 45 True] = Inr (wState 45 True, [])" by simp
  from optimization_error_caught [OF h1 h2 h3 h4 h5, of 0]
  have "\<exists>s'. episodeStep wFitFail wRnd wCfg 0 (wState 0 False) [wState 45 True] wSession
          = Inr (wState 45 True, [], s')
        \<and> runEpisode wFitFail wRnd wCfg 0 (wState 0 False) [wState 45 True] wSession
          = runEpisode wFitFail wRnd wCfg 0 (wState 45 True) [] s'"
    by blast
  with h1 h2 h3 h4 h5 show ?thesis by blast
qed


lemma optimizationStep_effects:
  "\<exists>log. effects (optimizationStep fit rnd cfg s) = effects s @ log
     \<and> (log = [] \<or> (\<exists>e. log = [ConsoleLog e]))
     \<and> epsilon (optimizationStep fit rnd cfg s) = epsilon s"
  by (auto simp: optimizationStep_def Let_def emit_def split: sum.splits prod.splits)

lemma evaluateStep_effects:
  assumes "evaluateStep cfg episode state action stateTensor nextState s = Inr s'"
  shows "(\<exists>log. effects s' = effects s @ log \<and> epsilon s' = epsilon s
            \<and> (log = [] \<or> (\<exists>d. log = [ConsoleWarn d])))
    \<or> (\<exists>r t. effects s' = effects s @
            [AddReward r, MemoryAdd t,
             SetEpsilon (decayedEpsilon cfg episode)]
          \<and> epsilon s' = decayedEpsilon cfg episode)"
proof (cases "time nextState - time state < 40 \<or> 60 < time nextState - time state")
  case True
  from assms have "s' = s\<lparr>effects := effects s @
      (if isDone nextState then [] else [ConsoleWarn (time nextState - time state)])\<rparr>"
    by (simp add: evaluateStep_discard [OF True])
  then show ?thesis by simp
next
  case False
  then have w: "40 \<le> time nextState - time state" "time nextState - time state \<le> 60"
    by simp_all
  from assms have "s' = acceptStep cfg episode action stateTensor (stateVector nextState)
      (isDone nextState) s"
    by (simp add: evaluateStep_accept [OF w])
  then show ?thesis by (simp add: acceptStep_def Let_def emit_def)
qed

lemma episodeStep_effects:
  assumes "episodeStep fit rnd cfg episode state script s = Inr (nextState, rest, s1)"
  shows "\<exists>new. effects s1 = effects s @ new
    \<and> ((\<forall>v. SetEpsilon v \<notin> set new) \<and> (\<forall>t. MemoryAdd t \<notin> set new)
          \<and> epsilon s1 = epsilon s
        \<or> (\<forall>v. SetEpsilon v \<in> set new \<longrightarrow>
              v = decayedEpsilon cfg episode)
          \<and> (\<exists>v. SetEpsilon v \<in> set new) \<and> (\<exists>t. MemoryAdd t \<in> set new)
          \<and> epsilon s1 = decayedEpsilon cfg episode)"
proof -
  obtain action k where sel:
    "selectAction rnd (online s) (stateVector state) (epsilon s) (randomCalls s) = (action, k)"
    by (cases "selectAction rnd (online s) (stateVector state) (epsilon s) (randomCalls s)")
  let ?s1 = "emit (PerformAction action) (s\<lparr>randomCalls := k\<rparr>)"
  let ?s2 = "optimizationStep fit rnd cfg ?s1"
  have enc: "stateToTensor (rawState state) = Inr (stateVector state)"
    by (rule stateToTensor_rawState)
  from assms sel enc obtain nx where
    ev: "evaluateStep cfg episode state action (stateVector state) nx ?s2 = Inr s1"
    by (auto simp: episodeStep_def Let_def split: sum.splits prod.splits)
  obtain log where log: "effects ?s2 = effects ?s1 @ log"
      "log = [] \<or> (\<exists>e. log = [ConsoleLog e])" "epsilon ?s2 = epsilon ?s1"
    using optimizationStep_effects [of fit rnd cfg ?s1] by blast
  have s1: "effects ?s1 = effects s @ [PerformAction action]" "epsilon ?s1 = epsilon s"
    by (simp_all add: emit_def)
  from evaluateStep_effects [OF ev] show ?thesis
  proof
    assume "\<exists>l. effects s1 = effects ?s2 @ l \<and> epsilon s1 = epsilon ?s2
            \<and> (l = [] \<or> (\<exists>d. l = [ConsoleWarn d]))"
    then obtain l where l: "effects s1 = effects ?s2 @ l" "epsilon s1 = epsilon ?s2"
      "l = [] \<or> (\<exists>d. l = [ConsoleWarn d])" by blast
    have "effects s1 = effects s @ ([PerformAction action] @ log @ l)"
      using l(1) log(1) s1(1) by simp
    moreover have "\<forall>v. SetEpsilon v \<notin> set ([PerformAction action] @ log @ l)"
      using l(3) log(2) by auto
    moreover have "\<forall>t. MemoryAdd t \<notin> set ([PerformAction action] @ log @ l)"
      using l(3) log(2) by auto
    moreover have "epsilon s1 = epsilon s" using l(2) log(3) s1(2) by simp
    ultimately show ?thesis by blast
  next
    let ?d = "decayedEpsilon cfg episode"
    assume "\<exists>r t. effects s1 = effects ?s2 @ [AddReward r, MemoryAdd t, SetEpsilon ?d]
          \<and> epsilon s1 = ?d"
    then obtain r t where a:
      "effects s1 = effects ?s2 @ [AddReward r, MemoryAdd t, SetEpsilon ?d]" "epsilon s1 = ?d"
      by blast
    let ?new = "[PerformAction action] @ log @ [AddReward r, MemoryAdd t, SetEpsilon ?d]"
    have "effects s1 = effects s @ ?new"
      using a(1) log(1) s1(1) by simp
    moreover have "\<forall>v. SetEpsilon v \<in> set ?new \<longrightarrow> v = ?d"
      using log(2) by auto
    moreover have "\<exists>v. SetEpsilon v \<in> set ?new" by auto
    moreover have "\<exists>t. MemoryAdd t \<in> set ?new" by auto
    ultimately show ?thesis using a(2) by blast
  qed
qed

text \<open>
  Claim C10. Within one episode every assignment to \<^verbatim>\<open>epsilon\<close> assigns the same value,
  the right-hand side of the assignment at the episode's index. So at the end of an
  episode in which a step was accepted \<^verbatim>\<open>epsilon\<close> has that value, and after an episode
  without an accepted step it has the value it had at the start: it changes at most
  once, at the first accepted step.
\<close>

theorem epsilon_fixed_within_episode:
  assumes "runEpisode fit rnd cfg episode state script s = Inr (rest, s')"
  shows "\<exists>new. effects s' = effects s @ new
    \<and> (\<forall>v. SetEpsilon v \<in> set new \<longrightarrow>
          v = decayedEpsilon cfg episode)
    \<and> ((\<exists>t. MemoryAdd t \<in> set new) \<longrightarrow>
          epsilon s' = decayedEpsilon cfg episode
          \<and> SetEpsilon (epsilon s') \<in> set new)
    \<and> (\<not> (\<exists>t. MemoryAdd t \<in> set new) \<longrightarrow>
          epsilon s' = epsilon s \<and> \<not> (\<exists>v. SetEpsilon v \<in> set new))"
  using assms
proof (induction "length script" arbitrary: state script s rule: less_induct)
  case less
  let ?d = "decayedEpsilon cfg episode"
  show ?case
  proof (cases "isDone state")
    case True
    with less.prems have "s' = s" by (subst (asm) runEpisode.simps) simp
    then have "effects s' = effects s @ []" by simp
    then show ?thesis using \<open>s' = s\<close> by (intro exI [of _ "[]"]) simp
  next
    case False
    from less.prems False obtain nx r s1 where
      step: "episodeStep fit rnd cfg episode state script s = Inr (nx, r, s1)"
      and run: "runEpisode fit rnd cfg episode nx r s1 = Inr (rest, s')"
      by (subst (asm) runEpisode.simps) (auto split: sum.splits)
    have "length r < length script" by (rule episodeStep_shorter [OF step])
    from less.hyps [OF this run] obtain new2 where n2:
      "effects s' = effects s1 @ new2"
      "\<forall>v. SetEpsilon v \<in> set new2 \<longrightarrow> v = ?d"
      "(\<exists>t. MemoryAdd t \<in> set new2) \<longrightarrow>
          epsilon s' = ?d \<and> SetEpsilon (epsilon s') \<in> set new2"
      "\<not> (\<exists>t. MemoryAdd t \<in> set new2) \<longrightarrow>
          epsilon s' = epsilon s1 \<and> \<not> (\<exists>v. SetEpsilon v \<in> set new2)"
      by blast
    from episodeStep_effects [OF step] obtain new1 where n1:
      "effects s1 = effects s @ new1"
      "(\<forall>v. SetEpsilon v \<notin> set new1) \<and> (\<forall>t. MemoryAdd t \<notin> set new1)
          \<and> epsilon s1 = epsilon s
        \<or> (\<forall>v. SetEpsilon v \<in> set new1 \<longrightarrow> v = ?d)
          \<and> (\<exists>v. SetEpsilon v \<in> set new1) \<and> (\<exists>t. MemoryAdd t \<in> set new1)
          \<and> epsilon s1 = ?d"
      by blast
    have e: "effects s' = effects s @ (new1 @ new2)" using n1(1) n2(1) by simp
    have a: "\<forall>v. SetEpsilon v \<in> set (new1 @ new2) \<longrightarrow> v = ?d"
      using n1(2) n2(2) by auto
    have b: "(\<exists>t. MemoryAdd t \<in> set (new1 @ new2)) \<longrightarrow>
          epsilon s' = ?d \<and> SetEpsilon (epsilon s') \<in> set (new1 @ new2)"
      using n1(2) n2(3,4) by auto
    have c: "\<not> (\<exists>t. MemoryAdd t \<in> set (new1 @ new2)) \<longrightarrow>
          epsilon s' = epsilon s \<and> \<not> (\<exists>v. SetEpsilon v \<in> set (new1 @ new2))"
      using n1(2) n2(4) by auto
    from e a b c show ?thesis by blast
  qed
qed

lemma decayedEpsilon_dyadic_0:
  assumes "epsilonStart cfg = 1" and "epsilonEnd cfg = 1 / 128" and "epsilonDecay cfg = 256"
  shows "decayedEpsilon cfg 0 = Num 1"
proof -
  have "decayedValue cfg 0 = dround (1 / 128 + dround (dround (1 - 1 / 128) * dround 1))"
    by (simp only: decayedValue_def mathExp_def assms) (simp add: dround_zero)
  also have "\<dots> = 1"
    by (simp add: dround_one dround_127_128)
  finally show ?thesis by (simp add: decayedEpsilon_def assms(3))
qed

theorem epsilon_fixed_within_episode_witness:
  "\<exists>s'. runEpisode wFitFail wRnd wCfgDyadic 0 (wState 0 False)
        [wState 45 False, wState 90 True] (wSession\<lparr>epsilon := 0\<rparr>) = Inr ([], s')
     \<and> epsilon (wSession\<lparr>epsilon := 0\<rparr>) = 0 \<and> epsilon s' = 1
     \<and> (\<exists>new. effects s' = effects (wSession\<lparr>epsilon := 0\<rparr>) @ new
          \<and> SetEpsilon 1 \<in> set new \<and> SetEpsilon 0 \<notin> set new)"
proof -
  have ne: "(1::num) \<noteq> 0" by (simp add: one_num_def zero_num_def)
  have "\<exists>s'. runEpisode wFitFail wRnd wCfgDyadic 0 (wState 0 False)
      [wState 45 False, wState 90 True] (wSession\<lparr>epsilon := 0\<rparr>) = Inr ([], s')
      \<and> epsilon s' = 1"
    by (simp add: runEpisode.simps episodeStep_def stateToTensor_rawState selectAction_def
        lessNum_def zero_num_def optimizationStep_def sampleAndOptimize_def memorySample_def
        optimizeModel_def emit_def evaluateStep_def acceptStep_def memoryAdd_def Let_def
        predict_def argMax_def upt_rec decayedEpsilon_dyadic_0 one_num_def)
  then obtain s' where run: "runEpisode wFitFail wRnd wCfgDyadic 0
      (wState 0 False) [wState 45 False, wState 90 True] (wSession\<lparr>epsilon := 0\<rparr>)
      = Inr ([], s')"
    and eps: "epsilon s' = 1"
    by blast
  have d: "decayedEpsilon wCfgDyadic 0 = 1"
    by (simp add: decayedEpsilon_dyadic_0 one_num_def)
  from epsilon_fixed_within_episode [OF run] obtain new where n:
    "effects s' = effects (wSession\<lparr>epsilon := 0\<rparr>) @ new"
    "\<forall>v. SetEpsilon v \<in> set new \<longrightarrow> v = decayedEpsilon wCfgDyadic 0"
    "(\<exists>t. MemoryAdd t \<in> set new) \<longrightarrow>
       epsilon s' = decayedEpsilon wCfgDyadic 0 \<and> SetEpsilon (epsilon s') \<in> set new"
    "\<not> (\<exists>t. MemoryAdd t \<in> set new) \<longrightarrow>
       epsilon s' = epsilon (wSession\<lparr>epsilon := 0\<rparr>)
       \<and> \<not> (\<exists>v. SetEpsilon v \<in> set new)"
    by blast
  have e0: "epsilon (wSession\<lparr>epsilon := 0\<rparr>) = 0" by simp
  from n(4) eps ne e0 have m: "\<exists>t. MemoryAdd t \<in> set new" by metis
  with n(3) eps have a: "SetEpsilon 1 \<in> set new" by metis
  from n(2) ne d have b: "SetEpsilon 0 \<notin> set new" by metis
  from run eps n(1) a b e0 show ?thesis by blast
qed

text \<open>
  The rewards of the transitions with \<^verbatim>\<open>done = true\<close>. An accepted step stores \<open>-1\<close> for
  a terminal next state, so a memory in which every such transition has the reward
  \<open>-1\<close> keeps that through an episode; and a sample drawn from it holds only
  transitions of the memory.
\<close>

lemma acceptStep_done_reward:
  assumes "\<forall>t \<in> set (buffer (memory s)). tDone t \<longrightarrow> tReward t = - 1"
  shows "\<forall>t \<in> set (buffer (memory
      (acceptStep cfg episode action stateTensor nextStateTensor terminal s))).
    tDone t \<longrightarrow> tReward t = - 1"
proof -
  have "set (tl (buffer (memory s))) \<subseteq> set (buffer (memory s))"
    by (cases "buffer (memory s)") auto
  with assms show ?thesis
    by (auto simp: acceptStep_def Let_def emit_def memoryAdd_def)
qed

lemma episodeStep_done_rewards:
  assumes "episodeStep fit rnd cfg episode state script s = Inr (nextState, rest, s1)"
    and "\<forall>t \<in> set (buffer (memory s)). tDone t \<longrightarrow> tReward t = - 1"
  shows "\<forall>t \<in> set (buffer (memory s1)). tDone t \<longrightarrow> tReward t = - 1"
proof -
  obtain action k where sel:
    "selectAction rnd (online s) (stateVector state) (epsilon s) (randomCalls s) = (action, k)"
    by (cases "selectAction rnd (online s) (stateVector state) (epsilon s) (randomCalls s)")
  let ?s1 = "emit (PerformAction action) (s\<lparr>randomCalls := k\<rparr>)"
  let ?s2 = "optimizationStep fit rnd cfg ?s1"
  have mem: "memory ?s2 = memory s"
    by (auto simp: optimizationStep_def Let_def emit_def split: sum.splits prod.splits)
  from assms(1) sel obtain nx where
    ev: "evaluateStep cfg episode state action (stateVector state) nx ?s2 = Inr s1"
    by (auto simp: episodeStep_def Let_def stateToTensor_rawState split: sum.splits prod.splits)
  show ?thesis
  proof (cases "time nx - time state < 40 \<or> 60 < time nx - time state")
    case True
    from ev have "memory s1 = memory ?s2"
      by (auto simp: evaluateStep_discard [OF True])
    with mem assms(2) show ?thesis by simp
  next
    case False
    then have w: "40 \<le> time nx - time state" "time nx - time state \<le> 60" by simp_all
    from ev have "s1 = acceptStep cfg episode action (stateVector state) (stateVector nx)
        (isDone nx) ?s2"
      by (simp add: evaluateStep_accept [OF w])
    moreover have "\<forall>t \<in> set (buffer (memory ?s2)). tDone t \<longrightarrow> tReward t = - 1"
      using mem assms(2) by simp
    ultimately show ?thesis using acceptStep_done_reward by blast
  qed
qed

lemma runEpisode_done_rewards:
  assumes "runEpisode fit rnd cfg episode state script s = Inr (rest, s')"
    and "\<forall>t \<in> set (buffer (memory s)). tDone t \<longrightarrow> tReward t = - 1"
  shows "\<forall>t \<in> set (buffer (memory s')). tDone t \<longrightarrow> tReward t = - 1"
  using assms
proof (induction "length script" arbitrary: state script s rule: less_induct)
  case less
  show ?case
  proof (cases "isDone state")
    case True
    with less.prems(1) have "s' = s" by (subst (asm) runEpisode.simps) simp
    with less.prems(2) show ?thesis by simp
  next
    case False
    from less.prems(1) False obtain nx r s1 where
      step: "episodeStep fit rnd cfg episode state script s = Inr (nx, r, s1)"
      and run: "runEpisode fit rnd cfg episode nx r s1 = Inr (rest, s')"
      by (subst (asm) runEpisode.simps) (auto split: sum.splits)
    have "length r < length script" by (rule episodeStep_shorter [OF step])
    from less.hyps [OF this run episodeStep_done_rewards [OF step less.prems(2)]]
    show ?thesis .
  qed
qed

lemma memorySample_members:
  assumes "memorySample rnd k m n = Inr experiences"
    and "\<forall>j. 0 \<le> rnd j \<and> rnd j < 1"
  shows "set experiences \<subseteq> set (buffer m)"
proof -
  have "nat \<lfloor>rnd j * real (length (buffer m))\<rfloor> < length (buffer m)"
    if "buffer m \<noteq> []" for j
  proof -
    let ?l = "real (length (buffer m))"
    have l: "0 < ?l" using that by simp
    from assms(2) have r: "0 \<le> rnd j" "rnd j < 1" by simp_all
    then have "rnd j * ?l < ?l" using l by simp
    then have "\<lfloor>rnd j * ?l\<rfloor> < int (length (buffer m))"
      by (simp add: floor_less_iff)
    moreover have "0 \<le> \<lfloor>rnd j * ?l\<rfloor>" using r(1) l by simp
    ultimately show ?thesis by linarith
  qed
  with assms(1) show ?thesis
    by (cases "buffer m = []") (auto simp: memorySample_def split: if_splits)
qed

section \<open>The loop over the episodes\<close>

text \<open>
  One pass through the \<^verbatim>\<open>for\<close> loop: after the episode with index \<open>episode\<close> has run to
  its terminal state, \<open>episodeEnd\<close> is applied for that index, that is with
  \<open>episode + 1\<close> episodes completed, and the loop goes on with the next index.
\<close>

lemma trainLoop_episode:
  assumes "episode < episodes cfg"
    and "proxyState script = Inr (state, rest)"
    and "runEpisode fit rnd cfg episode state rest (emit Restart s) = Inr (rest', s')"
  shows "trainLoop fit rnd cfg episode script s =
    trainLoop fit rnd cfg (episode + 1) rest' (episodeEnd cfg episode s')"
  using assms by (subst trainLoop.simps) simp

lemma trainLoop_finished:
  "\<not> episode < episodes cfg \<Longrightarrow> trainLoop fit rnd cfg episode script s = Inr (script, s)"
  by (subst trainLoop.simps) simp

text \<open>
  The invariant through the whole session: from an empty replay memory on, every stored
  transition with \<^verbatim>\<open>done = true\<close> has the reward \<open>-1\<close>, and for every such entry of a
  sampled batch the reward is a single-precision number.
\<close>

lemma sampled_done_rewards:
  assumes "memorySample rnd k m n = Inr experiences"
    and "\<forall>j. 0 \<le> rnd j \<and> rnd j < 1"
    and "\<forall>t \<in> set (buffer m). tDone t \<longrightarrow> tReward t = - 1"
    and "i < length experiences" and "tDone (experiences ! i)"
  shows "fround (tReward (experiences ! i)) = tReward (experiences ! i)"
proof -
  have "experiences ! i \<in> set (buffer m)"
    using memorySample_members [OF assms(1,2)] assms(4) by auto
  with assms(3,5) have "tReward (experiences ! i) = - 1" by blast
  then show ?thesis by (simp add: fround_minus_one)
qed

lemma episodeEnd_memory: "memory (episodeEnd cfg episode s) = memory s"
  by (simp add: episodeEnd_def Let_def emit_def updateTargetModel_eq)

lemma trainLoop_done_rewards:
  assumes "trainLoop fit rnd cfg episode script s = Inr (rest, s')"
    and "\<forall>t \<in> set (buffer (memory s)). tDone t \<longrightarrow> tReward t = - 1"
  shows "\<forall>t \<in> set (buffer (memory s')). tDone t \<longrightarrow> tReward t = - 1"
  using assms
proof (induction "episodes cfg - episode" arbitrary: episode script s)
  case 0
  then have "\<not> episode < episodes cfg" by simp
  with "0.prems"(1) have "s' = s" by (simp add: trainLoop_finished)
  with "0.prems"(2) show ?case by simp
next
  case (Suc d)
  then have lt: "episode < episodes cfg" by simp
  from Suc.prems(1) lt obtain state r r' s1 where
    st: "proxyState script = Inr (state, r)"
    and run: "runEpisode fit rnd cfg episode state r (emit Restart s) = Inr (r', s1)"
    and loop: "trainLoop fit rnd cfg (episode + 1) r' (episodeEnd cfg episode s1) = Inr (rest, s')"
    by (subst (asm) trainLoop.simps) (auto split: sum.splits simp del: trainLoop.simps runEpisode.simps)
  have "\<forall>t \<in> set (buffer (memory (emit Restart s))). tDone t \<longrightarrow> tReward t = - 1"
    using Suc.prems(2) by (simp add: emit_def)
  from runEpisode_done_rewards [OF run this]
  have "\<forall>t \<in> set (buffer (memory (episodeEnd cfg episode s1))). tDone t \<longrightarrow> tReward t = - 1"
    by (simp add: episodeEnd_memory)
  moreover have "d = episodes cfg - (episode + 1)" using Suc.hyps(2) by simp
  ultimately show ?case using Suc.hyps(1) loop by blast
qed

lemma trainDinoModel_done_rewards:
  assumes "trainDinoModel fit rnd cfg onlineModel targetModel mem script k disk = Inr (rest, s')"
    and "buffer mem = []"
  shows "\<forall>t \<in> set (buffer (memory s')). tDone t \<longrightarrow> tReward t = - 1"
  using assms(1) unfolding trainDinoModel_def
  by (rule trainLoop_done_rewards) (simp add: assms(2))

end
